theory Spec2Isabelle
  imports Main "HOL-Library.Word"
begin

section \<open>Library values used by the entity\<close>

text \<open>
  \<^verbatim>\<open>uuid.UUID\<close> is the Go array type \<^verbatim>\<open>[16]byte\<close>: 128 bits, read here as one word.
  \<^verbatim>\<open>uuid.Nil\<close> is the array of zero bytes.
\<close>

type_synonym uuid = "128 word"

definition uuid_Nil :: uuid where
  "uuid_Nil = 0"

text \<open>
  A \<^verbatim>\<open>time.Time\<close> is kept as the instant it denotes (nanoseconds counted from the zero
  instant, January 1 of year 1, 00:00:00 UTC) and its location pointer (\<open>None\<close> for the nil
  pointer, which means UTC). The zero value \<^verbatim>\<open>time.Time{}\<close> is the zero instant with a nil
  location. The method \<^verbatim>\<open>IsZero\<close> looks at the instant only, \<^verbatim>\<open>After\<close> and \<^verbatim>\<open>Equal\<close> compare
  instants. Monotonic clock readings are left out.
\<close>

record Time =
  instant :: int
  loc :: "nat option"

definition Time_zero :: Time where
  "Time_zero = \<lparr>instant = 0, loc = None\<rparr>"

definition Time_IsZero :: "Time \<Rightarrow> bool" where
  "Time_IsZero t = (instant t = 0)"

definition Time_After :: "Time \<Rightarrow> Time \<Rightarrow> bool" where
  "Time_After t u = (instant u < instant t)"

definition Time_Equal :: "Time \<Rightarrow> Time \<Rightarrow> bool" where
  "Time_Equal t u = (instant t = instant u)"

text \<open>Go's \<^verbatim>\<open>int\<close> on a 64-bit target: 64 bits, two's complement, \<^verbatim>\<open>++\<close> wraps.\<close>

type_synonym go_int = "64 word"

section \<open>Errors\<close>

text \<open>
  One failed tag of the struct validator: the field and the tag that rejected it.
\<close>

datatype FieldError = FieldError string string

text \<open>
  Go error values. The three sentinels of package \<^verbatim>\<open>unitUseCase\<close> and the two of the
  service package are distinct values. \<open>Errorf m\<close> is \<^verbatim>\<open>fmt.Errorf\<close> with a message and nothing
  wrapped, \<open>Wrapf f e\<close> is \<^verbatim>\<open>fmt.Errorf(f, e)\<close> with one \<^verbatim>\<open>%w\<close> verb in the format \<open>f\<close>,
  \<open>Join a b\<close> is \<^verbatim>\<open>errors.Join(a, b)\<close> of two non-nil errors, \<open>ValidationErrors\<close> is what
  \<^verbatim>\<open>validate.Struct\<close> returns, and \<open>Opaque\<close> stands for any other error a repository
  implementation makes up.
\<close>

datatype error =
    ErrBadParams
  | ErrUserIDMismatch
  | ErrUserIDMissing
  | Service_ErrUserIDMismatch
  | Service_ErrUserIDMissing
  | ValidationErrors "FieldError list"
  | Errorf string
  | Wrapf string error
  | Join error error
  | Opaque string

text \<open>
  \<^verbatim>\<open>errors.Is(err, target)\<close>: the error itself, or anything reachable by unwrapping.
\<close>

fun errors_Is :: "error \<Rightarrow> error \<Rightarrow> bool" where
  "errors_Is (Wrapf f e) target = (Wrapf f e = target \<or> errors_Is e target)"
| "errors_Is (Join a b) target = (Join a b = target \<or> errors_Is a target \<or> errors_Is b target)"
| "errors_Is e target = (e = target)"

section \<open>The entity\<close>

record Unit =
  ID :: uuid
  Version :: go_int
  CreatedAt :: Time
  UpdatedAt :: Time
  DeletedAt :: "Time option"
  UserID :: "uuid option"
  Name :: string

text \<open>
  \<^verbatim>\<open>New\<close> reads the clock once and draws one identifier; both readings are arguments here:
  \<open>newid\<close> is the result of \<^verbatim>\<open>uuid.New()\<close>, \<open>now\<close> of \<^verbatim>\<open>time.Now()\<close>. The field
  \<^verbatim>\<open>DeletedAt\<close> is not mentioned in the literal, so it is the zero option.
\<close>

definition New :: "uuid \<Rightarrow> Time \<Rightarrow> uuid option \<Rightarrow> string \<Rightarrow> Unit" where
  "New newid now userID name =
     \<lparr>ID = newid, Version = 1, CreatedAt = now, UpdatedAt = now,
      DeletedAt = None, UserID = userID, Name = name\<rparr>"

text \<open>
  \<^verbatim>\<open>validate.Struct\<close> on a \<^verbatim>\<open>Unit\<close>, by the struct tags. The fields are visited in
  declaration order; on each field the tags run left to right and the first failing tag is
  recorded, then the next field is visited.
  \<^item> \<^verbatim>\<open>required\<close> fails on the zero value of the field's type;
  \<^item> \<^verbatim>\<open>gt=0\<close> on an \<^verbatim>\<open>int\<close> is the signed comparison;
  \<^item> \<^verbatim>\<open>gtecsfield=CreatedAt\<close> on a \<^verbatim>\<open>time.Time\<close> is \<^verbatim>\<open>After\<close> or \<^verbatim>\<open>Equal\<close>;
  \<^item> the two \<^verbatim>\<open>mo.Option\<close> fields are structs with unexported fields only: with the tag
    \<^verbatim>\<open>omitempty\<close> or with no tag, nothing in them is checked.
\<close>

definition validate_Struct :: "Unit \<Rightarrow> FieldError list" where
  "validate_Struct u =
     (if ID u = uuid_Nil then [FieldError ''ID'' ''required''] else []) @
     (if Version u = 0 then [FieldError ''Version'' ''required'']
      else if \<not> (0 <s Version u) then [FieldError ''Version'' ''gt'']
      else []) @
     (if CreatedAt u = Time_zero then [FieldError ''CreatedAt'' ''required''] else []) @
     (if UpdatedAt u = Time_zero then [FieldError ''UpdatedAt'' ''required'']
      else if \<not> (Time_After (UpdatedAt u) (CreatedAt u) \<or> Time_Equal (UpdatedAt u) (CreatedAt u))
        then [FieldError ''UpdatedAt'' ''gtecsfield'']
      else []) @
     (if Name u = [] then [FieldError ''Name'' ''required''] else [])"

text \<open>\<^verbatim>\<open>Validate\<close> of \<^verbatim>\<open>internal/entities/unit/unit.go\<close>: the struct tags and nothing else.\<close>

definition Validate :: "Unit \<Rightarrow> error option" where
  "Validate u =
     (case validate_Struct u of
        [] \<Rightarrow> None
      | e # es \<Rightarrow> Some (ValidationErrors (e # es)))"

text \<open>
  \<^verbatim>\<open>Validate\<close> of package \<^verbatim>\<open>unitEntity\<close>: the struct tags, then the two optional fields.
\<close>

definition unitEntity_Validate :: "Unit \<Rightarrow> error option" where
  "unitEntity_Validate u =
     (case validate_Struct u of
        e # es \<Rightarrow> Some (Wrapf ''validate unit: %w'' (ValidationErrors (e # es)))
      | [] \<Rightarrow>
          if (case DeletedAt u of None \<Rightarrow> False | Some t \<Rightarrow> Time_IsZero t)
            then Some (Errorf ''validate unit deleted at: value is zero'')
          else if (case UserID u of None \<Rightarrow> False | Some i \<Rightarrow> i = uuid_Nil)
            then Some (Errorf ''validate unit user id: value is zero'')
          else None)"

text \<open>
  The five invariants of the data model, in the words of the specification:
  (1) id, createdAt, updatedAt and name are present (not the zero value of their type);
  (2) version is at least 1; (3) updatedAt is not before createdAt; (4) a present deletedAt
  is not the zero timestamp; (5) a present userID is not the nil identifier.
\<close>

definition invariant_tags :: "Unit \<Rightarrow> bool" where
  "invariant_tags u =
     (ID u \<noteq> uuid_Nil \<and> CreatedAt u \<noteq> Time_zero \<and> UpdatedAt u \<noteq> Time_zero \<and> Name u \<noteq> []
      \<and> 1 \<le>s Version u
      \<and> instant (CreatedAt u) \<le> instant (UpdatedAt u))"

definition invariant_optional :: "Unit \<Rightarrow> bool" where
  "invariant_optional u =
     ((case DeletedAt u of None \<Rightarrow> True | Some t \<Rightarrow> \<not> Time_IsZero t)
      \<and> (case UserID u of None \<Rightarrow> True | Some i \<Rightarrow> i \<noteq> uuid_Nil))"

definition invariants :: "Unit \<Rightarrow> bool" where
  "invariants u = (invariant_tags u \<and> invariant_optional u)"

text \<open>
  \<^verbatim>\<open>Touch\<close> and \<^verbatim>\<open>MarkDeleted\<close> have a pointer receiver. The argument is what the pointer
  refers to, \<open>None\<close> for the nil pointer; the result is what it refers to afterwards.
  \<open>now\<close> is the reading of \<^verbatim>\<open>time.Now()\<close>, which the nil branch does not take.
\<close>

definition Touch :: "Time \<Rightarrow> Unit option \<Rightarrow> Unit option" where
  "Touch now p =
     (case p of
        None \<Rightarrow> None
      | Some u \<Rightarrow> Some (u\<lparr>Version := Version u + 1, UpdatedAt := now\<rparr>))"

definition MarkDeleted :: "Time \<Rightarrow> Unit option \<Rightarrow> Unit option" where
  "MarkDeleted now p =
     (case p of
        None \<Rightarrow> None
      | Some u \<Rightarrow> Some (u\<lparr>UpdatedAt := now, DeletedAt := Some now\<rparr>))"

text \<open>
  A method call \<^verbatim>\<open>unit.Touch()\<close> on a local variable passes its address, which is never
  nil; the variable then holds what the method left there.
\<close>

definition on_local :: "(Unit option \<Rightarrow> Unit option) \<Rightarrow> Unit \<Rightarrow> Unit" where
  "on_local method unit = (case method (Some unit) of None \<Rightarrow> unit | Some unit' \<Rightarrow> unit')"

section \<open>The repository and the calls made on it\<close>

text \<open>
  The repository is an interface: any implementation may stand behind it. It is a record of
  functions over a store of any type \<open>'s\<close>; each takes the store and returns its answer and
  the store it leaves. A Go result \<^verbatim>\<open>(value, error)\<close> is a sum, \<open>Inl\<close> the non-nil error;
  a result \<^verbatim>\<open>error\<close> is an option, \<open>None\<close> for nil. The context argument is handed through
  untouched and is left out.
\<close>

record 's Repository =
  repo_GetByIDs :: "uuid list \<Rightarrow> 's \<Rightarrow> (error + Unit list) \<times> 's"
  repo_GetAll :: "uuid \<Rightarrow> string option \<Rightarrow> 's \<Rightarrow> (error + Unit list) \<times> 's"
  repo_Create :: "Unit \<Rightarrow> 's \<Rightarrow> error option \<times> 's"
  repo_Update :: "Unit \<Rightarrow> 's \<Rightarrow> error option \<times> 's"

text \<open>The repository interface of the service package.\<close>

record 's Service_Repository =
  srepo_GetByID :: "uuid \<Rightarrow> 's \<Rightarrow> (error + Unit) \<times> 's"
  srepo_GetAll :: "'s \<Rightarrow> (error + Unit list) \<times> 's"
  srepo_Create :: "Unit \<Rightarrow> 's \<Rightarrow> error option \<times> 's"
  srepo_Update :: "Unit \<Rightarrow> 's \<Rightarrow> error option \<times> 's"

text \<open>
  Every call on the repository is logged, in order, next to the store, so that "no repository
  call is issued" can be said: the log is the same before and after.
\<close>

datatype call =
    Call_GetByIDs "uuid list"
  | Call_GetByID uuid
  | Call_GetAll uuid "string option"
  | Call_GetAll_unfiltered
  | Call_Create Unit
  | Call_Update Unit

record 's world =
  store :: 's
  calls :: "call list"

definition after_call :: "call \<Rightarrow> 's \<Rightarrow> 's world \<Rightarrow> 's world" where
  "after_call c s' w = \<lparr>store = s', calls = calls w @ [c]\<rparr>"

definition issue :: "call \<Rightarrow> ('s \<Rightarrow> 'r \<times> 's) \<Rightarrow> 's world \<Rightarrow> 'r \<times> 's world" where
  "issue c f w = (case f (store w) of (r, s') \<Rightarrow> (r, after_call c s' w))"

text \<open>The units handed to a writing call (\<^verbatim>\<open>Create\<close> or \<^verbatim>\<open>Update\<close>) in a log.\<close>

fun written :: "call list \<Rightarrow> Unit list" where
  "written [] = []"
| "written (Call_Create u # cs) = u # written cs"
| "written (Call_Update u # cs) = u # written cs"
| "written (_ # cs) = written cs"

section \<open>Formatting\<close>

text \<open>
  The verb \<^verbatim>\<open>%d\<close> of \<^verbatim>\<open>fmt.Errorf\<close> on a length (never negative): the decimal digits,
  most significant first.
\<close>

definition digit :: "nat \<Rightarrow> char" where
  "digit d = char_of (d + 48)"

fun fmt_d :: "nat \<Rightarrow> string" where
  "fmt_d n = (if 10 \<le> n then fmt_d (n div 10) @ [digit (n mod 10)] else [digit n])"

declare fmt_d.simps [simp del]

text \<open>\<^verbatim>\<open>strings.Contains(s, substr)\<close>: \<open>substr\<close> occurs in \<open>s\<close> as a contiguous run.\<close>

fun strings_Contains :: "string \<Rightarrow> string \<Rightarrow> bool" where
  "strings_Contains [] substr = (substr = [])"
| "strings_Contains (c # cs) substr =
     (take (length substr) (c # cs) = substr \<or> strings_Contains cs substr)"

section \<open>The use-case layer (package unitUseCase)\<close>

text \<open>
  The entity package is imported by path; its \<^verbatim>\<open>Validate\<close> exists in two forms (above), so
  the two operations that validate take it as their first argument. \<open>newid\<close> and \<open>now\<close>
  are the readings of \<^verbatim>\<open>uuid.New()\<close> and \<^verbatim>\<open>time.Now()\<close> the operation takes.
\<close>

definition UseCase_GetByIDs ::
  "'s Repository \<Rightarrow> uuid list \<Rightarrow> 's world \<Rightarrow> (error + Unit list) \<times> 's world" where
  "UseCase_GetByIDs repo ids w =
     (if length ids = 0
        then (Inl (Join ErrBadParams (Errorf ''ids must not be empty'')), w)
      else
        (case issue (Call_GetByIDs ids) (repo_GetByIDs repo ids) w of
           (Inl err, w1) \<Rightarrow> (Inl (Wrapf ''get units by ids: %w'' err), w1)
         | (Inr units, w1) \<Rightarrow> (Inr units, w1)))"

definition UseCase_GetAll ::
  "'s Repository \<Rightarrow> uuid \<Rightarrow> string option \<Rightarrow> 's world \<Rightarrow> (error + Unit list) \<times> 's world" where
  "UseCase_GetAll repo userID substring w =
     (if (case substring of None \<Rightarrow> False | Some x \<Rightarrow> x = [])
        then (Inl (Join ErrBadParams (Errorf ''substring must not be empty when set'')), w)
      else
        (case issue (Call_GetAll userID substring) (repo_GetAll repo userID substring) w of
           (Inl err, w1) \<Rightarrow> (Inl (Wrapf ''get all units: %w'' err), w1)
         | (Inr units, w1) \<Rightarrow> (Inr units, w1)))"

definition UseCase_Create ::
  "(Unit \<Rightarrow> error option) \<Rightarrow> 's Repository \<Rightarrow> uuid \<Rightarrow> Time \<Rightarrow> uuid \<Rightarrow> string \<Rightarrow> 's world
     \<Rightarrow> (error + Unit) \<times> 's world" where
  "UseCase_Create validate repo newid now userID name w =
     (let unit = New newid now (Some userID) name in
      case validate unit of
        Some err \<Rightarrow> (Inl (Join ErrBadParams (Wrapf ''validate unit create: %w'' err)), w)
      | None \<Rightarrow>
          (case issue (Call_Create unit) (repo_Create repo unit) w of
             (Some err, w1) \<Rightarrow> (Inl (Wrapf ''create unit: %w'' err), w1)
           | (None, w1) \<Rightarrow> (Inr unit, w1)))"

definition UseCase_Update ::
  "(Unit \<Rightarrow> error option) \<Rightarrow> 's Repository \<Rightarrow> Time \<Rightarrow> uuid \<Rightarrow> uuid \<Rightarrow> string \<Rightarrow> 's world
     \<Rightarrow> (error + Unit) \<times> 's world" where
  "UseCase_Update validate repo now unit_id userID name w =
     (case issue (Call_GetByIDs [unit_id]) (repo_GetByIDs repo [unit_id]) w of
        (Inl err, w1) \<Rightarrow> (Inl (Wrapf ''get unit by id for update: %w'' err), w1)
      | (Inr units, w1) \<Rightarrow>
          if length units \<noteq> 1
            then (Inl (Errorf (''get unit by id for update: expected 1 unit, got ''
                                 @ fmt_d (length units))), w1)
          else
            (let unit = hd units in
             case UserID unit of
               None \<Rightarrow> (Inl ErrUserIDMissing, w1)
             | Some owner \<Rightarrow>
                 if owner \<noteq> userID then (Inl ErrUserIDMismatch, w1)
                 else
                   (let unit = on_local (Touch now) unit;
                        unit = unit\<lparr>Name := name\<rparr> in
                    case validate unit of
                      Some err \<Rightarrow>
                        (Inl (Join ErrBadParams (Wrapf ''validate unit update: %w'' err)), w1)
                    | None \<Rightarrow>
                        (case issue (Call_Update unit) (repo_Update repo unit) w1 of
                           (Some err, w2) \<Rightarrow> (Inl (Wrapf ''update unit: %w'' err), w2)
                         | (None, w2) \<Rightarrow> (Inr unit, w2)))))"

definition UseCase_Delete ::
  "'s Repository \<Rightarrow> Time \<Rightarrow> uuid \<Rightarrow> 's world \<Rightarrow> (error + Unit) \<times> 's world" where
  "UseCase_Delete repo now unit_id w =
     (case issue (Call_GetByIDs [unit_id]) (repo_GetByIDs repo [unit_id]) w of
        (Inl err, w1) \<Rightarrow> (Inl (Wrapf ''get unit by id for delete: %w'' err), w1)
      | (Inr units, w1) \<Rightarrow>
          if length units \<noteq> 1
            then (Inl (Errorf (''get unit by id for delete: expected 1 unit, got ''
                                 @ fmt_d (length units))), w1)
          else
            (let unit = hd units;
                 unit = on_local (MarkDeleted now) unit in
             case issue (Call_Update unit) (repo_Update repo unit) w1 of
               (Some err, w2) \<Rightarrow> (Inl (Wrapf ''update unit for delete: %w'' err), w2)
             | (None, w2) \<Rightarrow> (Inr unit, w2)))"

section \<open>The service layer (package unit of the service)\<close>

definition Service_GetAllFiltered ::
  "'s Service_Repository \<Rightarrow> string \<Rightarrow> 's world \<Rightarrow> (error + Unit list) \<times> 's world" where
  "Service_GetAllFiltered repo substring w =
     (case issue Call_GetAll_unfiltered (srepo_GetAll repo) w of
        (Inl err, w1) \<Rightarrow> (Inl err, w1)
      | (Inr units, w1) \<Rightarrow>
          if substring = [] then (Inr units, w1)
          else (Inr (filter (\<lambda>unit. strings_Contains (Name unit) substring) units), w1))"

definition Service_Create ::
  "(Unit \<Rightarrow> error option) \<Rightarrow> 's Service_Repository \<Rightarrow> uuid \<Rightarrow> Time \<Rightarrow> uuid option \<Rightarrow> string
     \<Rightarrow> 's world \<Rightarrow> (error + Unit) \<times> 's world" where
  "Service_Create validate repo newid now userID name w =
     (let unit = New newid now userID name in
      case validate unit of
        Some err \<Rightarrow> (Inl err, w)
      | None \<Rightarrow>
          (case issue (Call_Create unit) (srepo_Create repo unit) w of
             (Some err, w1) \<Rightarrow> (Inl err, w1)
           | (None, w1) \<Rightarrow> (Inr unit, w1)))"

definition Service_Update ::
  "(Unit \<Rightarrow> error option) \<Rightarrow> 's Service_Repository \<Rightarrow> Time \<Rightarrow> uuid \<Rightarrow> uuid \<Rightarrow> string
     \<Rightarrow> 's world \<Rightarrow> (error + Unit) \<times> 's world" where
  "Service_Update validate repo now unit_id userID name w =
     (case issue (Call_GetByID unit_id) (srepo_GetByID repo unit_id) w of
        (Inl err, w1) \<Rightarrow> (Inl err, w1)
      | (Inr unit, w1) \<Rightarrow>
          (case UserID unit of
             None \<Rightarrow> (Inl Service_ErrUserIDMissing, w1)
           | Some owner \<Rightarrow>
               if owner \<noteq> userID then (Inl Service_ErrUserIDMismatch, w1)
               else
                 (let unit = on_local (Touch now) unit;
                      unit = unit\<lparr>Name := name\<rparr> in
                  case validate unit of
                    Some err \<Rightarrow> (Inl (Wrapf ''validate unit update: %w'' err), w1)
                  | None \<Rightarrow>
                      (case issue (Call_Update unit) (srepo_Update repo unit) w1 of
                         (Some err, w2) \<Rightarrow> (Inl err, w2)
                       | (None, w2) \<Rightarrow> (Inr unit, w2)))))"

definition Service_Delete ::
  "'s Service_Repository \<Rightarrow> Time \<Rightarrow> uuid \<Rightarrow> 's world \<Rightarrow> (error + Unit) \<times> 's world" where
  "Service_Delete repo now unit_id w =
     (case issue (Call_GetByID unit_id) (srepo_GetByID repo unit_id) w of
        (Inl err, w1) \<Rightarrow> (Inl err, w1)
      | (Inr unit, w1) \<Rightarrow>
          (let unit = on_local (MarkDeleted now) unit in
           case issue (Call_Update unit) (srepo_Update repo unit) w1 of
             (Some err, w2) \<Rightarrow> (Inl err, w2)
           | (None, w2) \<Rightarrow> (Inr unit, w2)))"

section \<open>An in-memory repository\<close>

text \<open>
  One implementation of each interface, over a list of units, to run the operations on
  concrete inputs: a fetch filters by identifier, \<^verbatim>\<open>Create\<close> appends, \<^verbatim>\<open>Update\<close> replaces
  the units with the same identifier.
\<close>

definition mem_Repository :: "Unit list Repository" where
  "mem_Repository =
     \<lparr>repo_GetByIDs = (\<lambda>ids s. (Inr (filter (\<lambda>u. ID u \<in> set ids) s), s)),
      repo_GetAll = (\<lambda>userID substring s.
         (Inr (filter (\<lambda>u. UserID u = Some userID \<and>
                 (case substring of None \<Rightarrow> True | Some x \<Rightarrow> strings_Contains (Name u) x)) s), s)),
      repo_Create = (\<lambda>u s. (None, s @ [u])),
      repo_Update = (\<lambda>u s. (None, map (\<lambda>v. if ID v = ID u then u else v) s))\<rparr>"

definition mem_Service_Repository :: "Unit list Service_Repository" where
  "mem_Service_Repository =
     \<lparr>srepo_GetByID = (\<lambda>unit_id s.
         (case filter (\<lambda>u. ID u = unit_id) s of
            [] \<Rightarrow> Inl (Opaque ''unit not found'')
          | u # _ \<Rightarrow> Inr u, s)),
      srepo_GetAll = (\<lambda>s. (Inr s, s)),
      srepo_Create = (\<lambda>u s. (None, s @ [u])),
      srepo_Update = (\<lambda>u s. (None, map (\<lambda>v. if ID v = ID u then u else v) s))\<rparr>"

definition empty_world :: "Unit list \<Rightarrow> Unit list world" where
  "empty_world s = \<lparr>store = s, calls = []\<rparr>"

text \<open>
  A run of the use-case layer on the in-memory repository: one operation after the other,
  each on the store and log the previous one left. \<open>keeps_deleted s s'\<close> says that \<open>s'\<close>
  still has, at every position of \<open>s\<close>, a unit with the same identifier, and a deleted one
  where \<open>s\<close> had a deleted one.
\<close>

datatype operation =
    Op_GetByIDs "uuid list"
  | Op_GetAll uuid "string option"
  | Op_Create uuid Time uuid string
  | Op_Update Time uuid uuid string
  | Op_Delete Time uuid

fun perform :: "(Unit \<Rightarrow> error option) \<Rightarrow> Unit list world \<Rightarrow> operation \<Rightarrow> Unit list world" where
  "perform validate w (Op_GetByIDs ids) = snd (UseCase_GetByIDs mem_Repository ids w)"
| "perform validate w (Op_GetAll userID substring) = snd (UseCase_GetAll mem_Repository userID substring w)"
| "perform validate w (Op_Create newid now userID name) =
     snd (UseCase_Create validate mem_Repository newid now userID name w)"
| "perform validate w (Op_Update now unit_id userID name) =
     snd (UseCase_Update validate mem_Repository now unit_id userID name w)"
| "perform validate w (Op_Delete now unit_id) = snd (UseCase_Delete mem_Repository now unit_id w)"

definition keeps_deleted :: "Unit list \<Rightarrow> Unit list \<Rightarrow> bool" where
  "keeps_deleted s s' =
     (length s \<le> length s' \<and>
      (\<forall>i < length s. ID (s' ! i) = ID (s ! i) \<and>
         (DeletedAt (s ! i) \<noteq> None \<longrightarrow> DeletedAt (s' ! i) \<noteq> None)))"

section \<open>Shorthands for the statements\<close>

text \<open>
  What \<^verbatim>\<open>Update\<close> makes of the fetched unit (\<^verbatim>\<open>unit.Touch(); unit.Name = name\<close>), what
  \<^verbatim>\<open>Delete\<close> makes of it (\<^verbatim>\<open>unit.MarkDeleted()\<close>), and the units written between two
  states of the log.
\<close>

abbreviation touched :: "Time \<Rightarrow> string \<Rightarrow> Unit \<Rightarrow> Unit" where
  "touched now name unit \<equiv> (on_local (Touch now) unit)\<lparr>Name := name\<rparr>"

abbreviation deleted :: "Time \<Rightarrow> Unit \<Rightarrow> Unit" where
  "deleted now unit \<equiv> on_local (MarkDeleted now) unit"

definition written_since :: "'s world \<Rightarrow> 's world \<Rightarrow> Unit list" where
  "written_since w w' = drop (length (written (calls w))) (written (calls w'))"

section \<open>Sample values\<close>

definition t_early :: Time where
  "t_early = \<lparr>instant = 5, loc = None\<rparr>"

definition t_late :: Time where
  "t_late = \<lparr>instant = 10, loc = None\<rparr>"

definition unit_A :: Unit where
  "unit_A = \<lparr>ID = 1, Version = 1, CreatedAt = t_early, UpdatedAt = t_late,
             DeletedAt = None, UserID = Some 7, Name = ''Alpha''\<rparr>"

definition unit_D :: Unit where
  "unit_D = unit_A\<lparr>DeletedAt := Some t_early\<rparr>"

section \<open>Facts about the entity\<close>

lemma zero_sless_one: "(0::go_int) <s 1"
  by (simp add: word_sless_alt)

lemma one_sle_iff: "(1 \<le>s (v::go_int)) = (v \<noteq> 0 \<and> 0 <s v)"
  by (auto simp: word_sle_eq word_sless_alt)

lemma sint_succ: "sint (v::go_int) \<noteq> 2 ^ 63 - 1 \<Longrightarrow> sint (v + 1) = sint v + 1"
proof -
  assume a: "sint v \<noteq> 2 ^ 63 - 1"
  have lt: "sint v < 2 ^ 63" using sint_lt [of v] by simp
  have ge: "- (2 ^ 63) \<le> sint v" using sint_ge [of v] by simp
  have "sint (v + 1) = signed_take_bit 63 (sint v + 1)"
    by (simp add: sint_word_ariths)
  also have "\<dots> = sint v + 1"
    using a lt ge by (intro signed_take_bit_int_eq_self) auto
  finally show ?thesis .
qed

lemma New_fields:
  "ID (New newid now userID name) = newid"
  "Version (New newid now userID name) = 1"
  "CreatedAt (New newid now userID name) = now"
  "UpdatedAt (New newid now userID name) = now"
  "DeletedAt (New newid now userID name) = None"
  "UserID (New newid now userID name) = userID"
  "Name (New newid now userID name) = name"
  by (simp_all add: New_def)

text \<open>The struct tags check exactly the invariants (1) to (3).\<close>

lemma validate_Struct_Nil_iff: "validate_Struct u = [] \<longleftrightarrow> invariant_tags u"
  by (auto simp: validate_Struct_def invariant_tags_def one_sle_iff Time_After_def Time_Equal_def)

lemma Validate_iff_invariant_tags: "Validate u = None \<longleftrightarrow> invariant_tags u"
  by (simp add: Validate_def validate_Struct_Nil_iff [symmetric] split: list.splits)

text \<open>
  \<^verbatim>\<open>Validate\<close> of package \<^verbatim>\<open>unitEntity\<close> succeeds if and only if all five invariants hold.
\<close>

lemma unitEntity_Validate_iff_invariants: "unitEntity_Validate u = None \<longleftrightarrow> invariants u"
  by (auto simp: unitEntity_Validate_def invariants_def invariant_optional_def
      validate_Struct_Nil_iff [symmetric] split: list.splits option.splits)

lemma invariant_tags_New:
  "invariant_tags (New newid now userID name) \<longleftrightarrow>
     newid \<noteq> uuid_Nil \<and> now \<noteq> Time_zero \<and> name \<noteq> []"
  by (auto simp: invariant_tags_def New_def one_sle_iff zero_sless_one)

lemma invariant_tags_unit_A: "invariant_tags unit_A"
  by (simp add: invariant_tags_def unit_A_def t_early_def t_late_def Time_zero_def uuid_Nil_def
      one_sle_iff zero_sless_one)

text \<open>
  C1. \<^verbatim>\<open>Validate\<close> succeeds if and only if the five invariants hold; a unit whose deletedAt
  is present but zero, or whose userID is present but nil, is rejected. \<^verbatim>\<open>Validate\<close> has a
  value receiver and returns an error only, so there is nothing it could change.
  The \<^verbatim>\<open>Validate\<close> of package \<^verbatim>\<open>unitEntity\<close> does this (lemma
  \<open>unitEntity_Validate_iff_invariants\<close>). The \<^verbatim>\<open>Validate\<close> of \<^verbatim>\<open>unit.go\<close> does not: it accepts
  a unit that breaks invariant (5), and one that breaks invariant (4).
\<close>

theorem Validate_accepts_zero_optionals:
  "Validate (unit_A\<lparr>UserID := Some uuid_Nil\<rparr>) = None \<and>
   \<not> invariants (unit_A\<lparr>UserID := Some uuid_Nil\<rparr>) \<and>
   unitEntity_Validate (unit_A\<lparr>UserID := Some uuid_Nil\<rparr>) \<noteq> None \<and>
   Validate (unit_A\<lparr>DeletedAt := Some Time_zero\<rparr>) = None \<and>
   \<not> invariants (unit_A\<lparr>DeletedAt := Some Time_zero\<rparr>) \<and>
   unitEntity_Validate (unit_A\<lparr>DeletedAt := Some Time_zero\<rparr>) \<noteq> None"
proof -
  have tags: "invariant_tags (unit_A\<lparr>UserID := Some uuid_Nil\<rparr>)"
    "invariant_tags (unit_A\<lparr>DeletedAt := Some Time_zero\<rparr>)"
    using invariant_tags_unit_A by (simp_all add: invariant_tags_def)
  have opt: "\<not> invariant_optional (unit_A\<lparr>UserID := Some uuid_Nil\<rparr>)"
    "\<not> invariant_optional (unit_A\<lparr>DeletedAt := Some Time_zero\<rparr>)"
    by (simp_all add: invariant_optional_def Time_IsZero_def Time_zero_def)
  show ?thesis
    using tags opt
    by (simp add: Validate_iff_invariant_tags unitEntity_Validate_iff_invariants invariants_def)
qed

text \<open>
  C3, as stated: for every owner and every name the constructor gives version 1 and
  createdAt equal to updatedAt, and \<^verbatim>\<open>Validate\<close> succeeds on the new unit when the name is not
  empty. With the nil identifier as owner, \<^verbatim>\<open>Validate\<close> of package \<^verbatim>\<open>unitEntity\<close> rejects the
  new unit.
\<close>

theorem New_nil_owner_counterexample:
  "''Alpha'' \<noteq> [] \<and>
   unitEntity_Validate (New 1 t_early (Some uuid_Nil) ''Alpha'')
     = Some (Errorf ''validate unit user id: value is zero'')"
proof -
  have "validate_Struct (New 1 t_early (Some uuid_Nil) ''Alpha'') = []"
    by (simp add: validate_Struct_Nil_iff invariant_tags_New uuid_Nil_def t_early_def Time_zero_def)
  then show ?thesis
    by (simp add: unitEntity_Validate_def New_fields)
qed

text \<open>
  C3, amended: for every owner and every name the constructor gives version 1 and createdAt
  equal to updatedAt. When the name is not empty and the owner is absent or is not the nil
  identifier, \<^verbatim>\<open>Validate\<close> succeeds on the new unit, in \<^verbatim>\<open>unit.go\<close> and in package
  \<^verbatim>\<open>unitEntity\<close> alike. (\<^verbatim>\<open>uuid.New\<close> never gives the nil identifier and \<^verbatim>\<open>time.Now\<close>
  never the zero time; both readings are arguments here, so this is assumed of them.)
\<close>

theorem New_defaults:
  "Version (New newid now userID name) = 1 \<and>
   CreatedAt (New newid now userID name) = UpdatedAt (New newid now userID name) \<and>
   (name \<noteq> [] \<and> userID \<noteq> Some uuid_Nil \<and> newid \<noteq> uuid_Nil \<and> now \<noteq> Time_zero \<longrightarrow>
      Validate (New newid now userID name) = None \<and>
      unitEntity_Validate (New newid now userID name) = None)"
  by (auto simp: Validate_iff_invariant_tags unitEntity_Validate_iff_invariants invariants_def
      invariant_tags_New invariant_optional_def New_fields split: option.splits)

theorem New_defaults_witness:
  "''Alpha'' \<noteq> [] \<and> Some (7::uuid) \<noteq> Some uuid_Nil \<and> (None::uuid option) \<noteq> Some uuid_Nil \<and>
   (1::uuid) \<noteq> uuid_Nil \<and> t_early \<noteq> Time_zero \<and>
   Version (New 1 t_early (Some 7) ''Alpha'') = 1 \<and>
   Validate (New 1 t_early (Some 7) ''Alpha'') = None \<and>
   unitEntity_Validate (New 1 t_early (Some 7) ''Alpha'') = None \<and>
   Validate (New 1 t_early None ''Alpha'') = None \<and>
   unitEntity_Validate (New 1 t_early None ''Alpha'') = None"
  using New_defaults [of 1 t_early "Some 7" "''Alpha''"] New_defaults [of 1 t_early None "''Alpha''"]
  by (simp add: uuid_Nil_def t_early_def Time_zero_def)

text \<open>
  C4, as stated: for every prior state \<^verbatim>\<open>Touch\<close> sets updatedAt to a value not before the
  previous updatedAt. A unit whose updatedAt lies after the clock reading is set back.
\<close>

theorem Touch_updatedAt_counterexample:
  "Touch t_early (Some unit_A) = Some (unit_A\<lparr>Version := 2, UpdatedAt := t_early\<rparr>) \<and>
   instant (UpdatedAt (unit_A\<lparr>Version := 2, UpdatedAt := t_early\<rparr>)) < instant (UpdatedAt unit_A)"
  by (simp add: Touch_def unit_A_def t_early_def t_late_def)

text \<open>
  C4, amended: \<^verbatim>\<open>Touch\<close> on the nil pointer does nothing. On a unit it adds 1 to version in
  Go's \<^verbatim>\<open>int\<close> arithmetic (the signed value grows by exactly 1 unless version is the largest
  \<^verbatim>\<open>int\<close>) and sets updatedAt to the clock reading; that is not before the previous
  updatedAt whenever the clock reading is not before it.
\<close>

theorem Touch_version_updatedAt:
  "Touch now None = None \<and>
   (\<exists>u'. Touch now (Some u) = Some u' \<and> Version u' = Version u + 1 \<and> UpdatedAt u' = now \<and>
      (sint (Version u) \<noteq> 2 ^ 63 - 1 \<longrightarrow> sint (Version u') = sint (Version u) + 1) \<and>
      (instant (UpdatedAt u) \<le> instant now \<longrightarrow>
         Time_After (UpdatedAt u') (UpdatedAt u) \<or> Time_Equal (UpdatedAt u') (UpdatedAt u)))"
  by (auto simp: Touch_def Time_After_def Time_Equal_def sint_succ)

theorem Touch_version_updatedAt_witness:
  "sint (Version unit_A) \<noteq> 2 ^ 63 - 1 \<and> instant (UpdatedAt unit_A) \<le> instant t_late \<and>
   (\<exists>u'. Touch t_late (Some unit_A) = Some u' \<and> sint (Version u') = 2 \<and>
      Time_Equal (UpdatedAt u') (UpdatedAt unit_A))"
proof -
  have v: "sint (Version unit_A) \<noteq> 2 ^ 63 - 1" and t: "instant (UpdatedAt unit_A) \<le> instant t_late"
    by (simp_all add: unit_A_def)
  from Touch_version_updatedAt [of t_late unit_A] obtain u' where
    u': "Touch t_late (Some unit_A) = Some u'" "UpdatedAt u' = t_late"
        "sint (Version unit_A) \<noteq> 2 ^ 63 - 1 \<longrightarrow> sint (Version u') = sint (Version unit_A) + 1"
    by blast
  from u' v have "sint (Version u') = 2" by (simp add: unit_A_def)
  moreover have "Time_Equal (UpdatedAt u') (UpdatedAt unit_A)"
    using u'(2) by (simp add: Time_Equal_def unit_A_def)
  ultimately show ?thesis using v t u'(1) by blast
qed

section \<open>Facts about the use-case layer\<close>

lemma issue_eq: "f (store w) = (r, s') \<Longrightarrow> issue c f w = (r, after_call c s' w)"
  by (simp add: issue_def)

lemma after_call_fields:
  "store (after_call c s' w) = s'"
  "calls (after_call c s' w) = calls w @ [c]"
  by (simp_all add: after_call_def)

lemma written_append: "written (xs @ ys) = written xs @ written ys"
  by (induction xs rule: written.induct) simp_all

lemma written_after_call:
  "written (calls (after_call (Call_GetByIDs ids) s' w)) = written (calls w)"
  "written (calls (after_call (Call_GetByID i) s' w)) = written (calls w)"
  "written (calls (after_call (Call_GetAll i sub) s' w)) = written (calls w)"
  "written (calls (after_call Call_GetAll_unfiltered s' w)) = written (calls w)"
  "written (calls (after_call (Call_Create u) s' w)) = written (calls w) @ [u]"
  "written (calls (after_call (Call_Update u) s' w)) = written (calls w) @ [u]"
  by (simp_all add: after_call_fields written_append)

lemma on_local_Touch:
  "on_local (Touch now) unit = unit\<lparr>Version := Version unit + 1, UpdatedAt := now\<rparr>"
  by (simp add: on_local_def Touch_def)

lemma on_local_MarkDeleted:
  "on_local (MarkDeleted now) unit = unit\<lparr>UpdatedAt := now, DeletedAt := Some now\<rparr>"
  by (simp add: on_local_def MarkDeleted_def)

text \<open>
  C7. \<^verbatim>\<open>GetByIDs\<close> with an empty list of identifiers fails with an error that is
  \<^verbatim>\<open>ErrBadParams\<close>, and issues no repository call: the store and the log of calls are
  returned as they were.
\<close>

theorem GetByIDs_empty_BadParams:
  "UseCase_GetByIDs repo [] w = (Inl (Join ErrBadParams (Errorf ''ids must not be empty'')), w) \<and>
   errors_Is (Join ErrBadParams (Errorf ''ids must not be empty'')) ErrBadParams"
  by (simp add: UseCase_GetByIDs_def)

text \<open>
  C8, as stated: every call of \<^verbatim>\<open>GetAll\<close> with a substring filter that is present and empty
  fails with \<^verbatim>\<open>ErrBadParams\<close> and issues no repository call. \<^verbatim>\<open>GetAllFiltered\<close> of the
  service, given the empty string, calls the repository and returns every unit.
\<close>

theorem GetAllFiltered_empty_counterexample:
  "Service_GetAllFiltered mem_Service_Repository [] (empty_world [unit_A])
     = (Inr [unit_A], \<lparr>store = [unit_A], calls = [Call_GetAll_unfiltered]\<rparr>)"
  by (simp add: Service_GetAllFiltered_def issue_def after_call_def mem_Service_Repository_def
      empty_world_def)

text \<open>
  C8, amended: \<^verbatim>\<open>GetAll\<close> of the use case with a substring filter that is present and empty
  fails with an error that is \<^verbatim>\<open>ErrBadParams\<close>, and issues no repository call.
  \<^verbatim>\<open>GetAllFiltered\<close> of the service, whose filter is a plain string, takes the empty string
  as no filter: it issues the one call \<^verbatim>\<open>repo.GetAll\<close> and returns what that call returned,
  all units or the repository's error, as it is.
\<close>

theorem GetAll_empty_substring_BadParams:
  "UseCase_GetAll repo userID (Some []) w
     = (Inl (Join ErrBadParams (Errorf ''substring must not be empty when set'')), w) \<and>
   errors_Is (Join ErrBadParams (Errorf ''substring must not be empty when set'')) ErrBadParams \<and>
   Service_GetAllFiltered srepo [] sw
     = (fst (srepo_GetAll srepo (store sw)),
        after_call Call_GetAll_unfiltered (snd (srepo_GetAll srepo (store sw))) sw) \<and>
   calls (snd (Service_GetAllFiltered srepo [] sw)) = calls sw @ [Call_GetAll_unfiltered]"
  by (simp add: UseCase_GetAll_def Service_GetAllFiltered_def issue_def after_call_fields
      split: prod.splits sum.splits)

text \<open>
  \<^verbatim>\<open>GetAllFiltered\<close> of the service takes a plain string, which cannot be absent; there the
  empty string means no filter, and all units of the one fetch are returned.
\<close>

lemma Service_GetAllFiltered_empty:
  "srepo_GetAll repo (store w) = (Inr units, s1) \<Longrightarrow>
   Service_GetAllFiltered repo [] w = (Inr units, after_call Call_GetAll_unfiltered s1 w)"
  by (simp add: Service_GetAllFiltered_def issue_eq)

lemma UseCase_Update_count:
  assumes "repo_GetByIDs repo [unit_id] (store w) = (Inr units, s1)" and "length units \<noteq> 1"
  shows "UseCase_Update validate repo now unit_id userID name w =
     (Inl (Errorf (''get unit by id for update: expected 1 unit, got '' @ fmt_d (length units))),
      after_call (Call_GetByIDs [unit_id]) s1 w)"
  using assms by (simp add: UseCase_Update_def issue_eq)

lemma UseCase_Delete_count:
  assumes "repo_GetByIDs repo [unit_id] (store w) = (Inr units, s1)" and "length units \<noteq> 1"
  shows "UseCase_Delete repo now unit_id w =
     (Inl (Errorf (''get unit by id for delete: expected 1 unit, got '' @ fmt_d (length units))),
      after_call (Call_GetByIDs [unit_id]) s1 w)"
  using assms by (simp add: UseCase_Delete_def issue_eq)

text \<open>
  C9. In \<^verbatim>\<open>Update\<close> and \<^verbatim>\<open>Delete\<close>, when the fetch by identifier succeeds with zero or
  with more than one unit, the operation fails with an error that is none of
  \<^verbatim>\<open>ErrBadParams\<close>, \<^verbatim>\<open>ErrUserIDMissing\<close>, \<^verbatim>\<open>ErrUserIDMismatch\<close>; the only call issued is
  the fetch, so no unit is written.
\<close>

theorem lookup_count_mismatch_error:
  assumes "repo_GetByIDs repo [unit_id] (store w) = (Inr units, s1)" and "length units \<noteq> 1"
  shows "(\<exists>e. UseCase_Update validate repo now unit_id userID name w
            = (Inl e, after_call (Call_GetByIDs [unit_id]) s1 w) \<and>
          \<not> errors_Is e ErrBadParams \<and> \<not> errors_Is e ErrUserIDMissing \<and>
          \<not> errors_Is e ErrUserIDMismatch) \<and>
         (\<exists>e. UseCase_Delete repo now unit_id w
            = (Inl e, after_call (Call_GetByIDs [unit_id]) s1 w) \<and>
          \<not> errors_Is e ErrBadParams \<and> \<not> errors_Is e ErrUserIDMissing \<and>
          \<not> errors_Is e ErrUserIDMismatch) \<and>
         written (calls (after_call (Call_GetByIDs [unit_id]) s1 w)) = written (calls w)"
  using assms by (simp add: UseCase_Update_count UseCase_Delete_count written_after_call)

lemma mem_GetByIDs: "repo_GetByIDs mem_Repository ids s = (Inr (filter (\<lambda>u. ID u \<in> set ids) s), s)"
  by (simp add: mem_Repository_def)

lemma mem_Update: "repo_Update mem_Repository u s = (None, map (\<lambda>v. if ID v = ID u then u else v) s)"
  by (simp add: mem_Repository_def)

lemma mem_Create: "repo_Create mem_Repository u s = (None, s @ [u])"
  by (simp add: mem_Repository_def)

lemma ID_unit_A: "ID unit_A = 1" by (simp add: unit_A_def)

lemma fmt_d_0: "fmt_d 0 = ''0''"
  by code_simp

lemma fmt_d_2: "fmt_d (Suc (Suc 0)) = ''2''"
  by code_simp

theorem lookup_count_mismatch_error_witness:
  "repo_GetByIDs mem_Repository [1] (store (empty_world [])) = (Inr [], []) \<and>
   length ([] :: Unit list) \<noteq> 1 \<and>
   repo_GetByIDs mem_Repository [1] (store (empty_world [unit_A, unit_A]))
     = (Inr [unit_A, unit_A], [unit_A, unit_A]) \<and>
   length [unit_A, unit_A] \<noteq> 1 \<and>
   UseCase_Update Validate mem_Repository t_late 1 7 ''Beta'' (empty_world [])
     = (Inl (Errorf ''get unit by id for update: expected 1 unit, got 0''),
        \<lparr>store = [], calls = [Call_GetByIDs [1]]\<rparr>) \<and>
   UseCase_Delete mem_Repository t_late 1 (empty_world [unit_A, unit_A])
     = (Inl (Errorf ''get unit by id for delete: expected 1 unit, got 2''),
        \<lparr>store = [unit_A, unit_A], calls = [Call_GetByIDs [1]]\<rparr>)"
proof -
  have f0: "repo_GetByIDs mem_Repository [1] (store (empty_world [])) = (Inr [], [])"
    by (simp add: mem_GetByIDs empty_world_def)
  have f2: "repo_GetByIDs mem_Repository [1] (store (empty_world [unit_A, unit_A]))
     = (Inr [unit_A, unit_A], [unit_A, unit_A])"
    by (simp add: mem_GetByIDs empty_world_def ID_unit_A)
  have n0: "length ([] :: Unit list) \<noteq> 1" and n2: "length [unit_A, unit_A] \<noteq> 1" by simp_all
  from lookup_count_mismatch_error [OF f0 n0, where validate=Validate and now=t_late and userID=7 and name="''Beta''"] obtain e where
    e: "UseCase_Update Validate mem_Repository t_late 1 7 ''Beta'' (empty_world [])
          = (Inl e, after_call (Call_GetByIDs [1]) [] (empty_world []))"
    by blast
  have e': "UseCase_Update Validate mem_Repository t_late 1 7 ''Beta'' (empty_world [])
     = (Inl (Errorf ''get unit by id for update: expected 1 unit, got 0''),
        \<lparr>store = [], calls = [Call_GetByIDs [1]]\<rparr>)"
    using e UseCase_Update_count [OF f0 n0, of Validate t_late 7 "''Beta''"]
    by (simp add: fmt_d_0 after_call_def empty_world_def)
  from lookup_count_mismatch_error [OF f2 n2, where validate=Validate and now=t_late and userID=7 and name="''Beta''"] obtain d where
    d: "UseCase_Delete mem_Repository t_late 1 (empty_world [unit_A, unit_A])
          = (Inl d, after_call (Call_GetByIDs [1]) [unit_A, unit_A] (empty_world [unit_A, unit_A]))"
    by blast
  have d': "UseCase_Delete mem_Repository t_late 1 (empty_world [unit_A, unit_A])
     = (Inl (Errorf ''get unit by id for delete: expected 1 unit, got 2''),
        \<lparr>store = [unit_A, unit_A], calls = [Call_GetByIDs [1]]\<rparr>)"
    using d UseCase_Delete_count [OF f2 n2, of t_late]
    by (simp add: fmt_d_2 after_call_def empty_world_def)
  show ?thesis using f0 f2 e' d' by simp
qed

lemma UseCase_Update_fetched:
  assumes "repo_GetByIDs repo [unit_id] (store w) = (Inr [unit], s1)"
  shows "UseCase_Update validate repo now unit_id userID name w =
     (case UserID unit of
        None \<Rightarrow> (Inl ErrUserIDMissing, after_call (Call_GetByIDs [unit_id]) s1 w)
      | Some owner \<Rightarrow>
          if owner \<noteq> userID
            then (Inl ErrUserIDMismatch, after_call (Call_GetByIDs [unit_id]) s1 w)
          else
            (case validate (touched now name unit) of
               Some err \<Rightarrow> (Inl (Join ErrBadParams (Wrapf ''validate unit update: %w'' err)),
                            after_call (Call_GetByIDs [unit_id]) s1 w)
             | None \<Rightarrow>
                 (case repo_Update repo (touched now name unit) s1 of
                    (Some err, s2) \<Rightarrow>
                      (Inl (Wrapf ''update unit: %w'' err),
                       after_call (Call_Update (touched now name unit)) s2
                         (after_call (Call_GetByIDs [unit_id]) s1 w))
                  | (None, s2) \<Rightarrow>
                      (Inr (touched now name unit),
                       after_call (Call_Update (touched now name unit)) s2
                         (after_call (Call_GetByIDs [unit_id]) s1 w)))))"
  using assms
  by (simp add: UseCase_Update_def issue_eq issue_def after_call_fields
      Let_def split: option.splits prod.splits)

lemma Service_Update_fetched:
  assumes "srepo_GetByID repo unit_id (store w) = (Inr unit, s1)"
  shows "Service_Update validate repo now unit_id userID name w =
     (case UserID unit of
        None \<Rightarrow> (Inl Service_ErrUserIDMissing, after_call (Call_GetByID unit_id) s1 w)
      | Some owner \<Rightarrow>
          if owner \<noteq> userID
            then (Inl Service_ErrUserIDMismatch, after_call (Call_GetByID unit_id) s1 w)
          else
            (case validate (touched now name unit) of
               Some err \<Rightarrow> (Inl (Wrapf ''validate unit update: %w'' err),
                            after_call (Call_GetByID unit_id) s1 w)
             | None \<Rightarrow>
                 (case srepo_Update repo (touched now name unit) s1 of
                    (Some err, s2) \<Rightarrow>
                      (Inl err,
                       after_call (Call_Update (touched now name unit)) s2
                         (after_call (Call_GetByID unit_id) s1 w))
                  | (None, s2) \<Rightarrow>
                      (Inr (touched now name unit),
                       after_call (Call_Update (touched now name unit)) s2
                         (after_call (Call_GetByID unit_id) s1 w)))))"
  using assms
  by (simp add: Service_Update_def issue_eq issue_def after_call_fields
      Let_def split: option.splits prod.splits)

lemma UseCase_Delete_fetched:
  assumes "repo_GetByIDs repo [unit_id] (store w) = (Inr [unit], s1)"
  shows "UseCase_Delete repo now unit_id w =
     (case repo_Update repo (deleted now unit) s1 of
        (Some err, s2) \<Rightarrow>
          (Inl (Wrapf ''update unit for delete: %w'' err),
           after_call (Call_Update (deleted now unit)) s2
             (after_call (Call_GetByIDs [unit_id]) s1 w))
      | (None, s2) \<Rightarrow>
          (Inr (deleted now unit),
           after_call (Call_Update (deleted now unit)) s2
             (after_call (Call_GetByIDs [unit_id]) s1 w)))"
  using assms
  by (simp add: UseCase_Delete_def issue_eq issue_def after_call_fields
      Let_def split: option.splits prod.splits)

lemma Service_Delete_fetched:
  assumes "srepo_GetByID repo unit_id (store w) = (Inr unit, s1)"
  shows "Service_Delete repo now unit_id w =
     (case srepo_Update repo (deleted now unit) s1 of
        (Some err, s2) \<Rightarrow>
          (Inl err,
           after_call (Call_Update (deleted now unit)) s2
             (after_call (Call_GetByID unit_id) s1 w))
      | (None, s2) \<Rightarrow>
          (Inr (deleted now unit),
           after_call (Call_Update (deleted now unit)) s2
             (after_call (Call_GetByID unit_id) s1 w)))"
  using assms
  by (simp add: Service_Delete_def issue_eq issue_def after_call_fields
      Let_def split: option.splits prod.splits)


lemma UseCase_Create_eq:
  "UseCase_Create validate repo newid now userID name w =
     (case validate (New newid now (Some userID) name) of
        Some err \<Rightarrow> (Inl (Join ErrBadParams (Wrapf ''validate unit create: %w'' err)), w)
      | None \<Rightarrow>
          (case repo_Create repo (New newid now (Some userID) name) (store w) of
             (Some err, s1) \<Rightarrow>
               (Inl (Wrapf ''create unit: %w'' err),
                after_call (Call_Create (New newid now (Some userID) name)) s1 w)
           | (None, s1) \<Rightarrow>
               (Inr (New newid now (Some userID) name),
                after_call (Call_Create (New newid now (Some userID) name)) s1 w)))"
  by (simp add: UseCase_Create_def issue_def Let_def split: option.splits prod.splits)

lemma written_since_same: "written_since w w = []"
  by (simp add: written_since_def)

lemma written_since_read:
  "written_since w (after_call (Call_GetByIDs ids) s1 w) = []"
  "written_since w (after_call (Call_GetByID i) s1 w) = []"
  by (simp_all add: written_since_def written_after_call)

lemma written_since_write:
  "written_since w (after_call (Call_Create u) s1 w) = [u]"
  "written_since w (after_call (Call_Update u) s2 (after_call (Call_GetByIDs ids) s1 w)) = [u]"
  "written_since w (after_call (Call_Update u) s2 (after_call (Call_GetByID i) s1 w)) = [u]"
  by (simp_all add: written_since_def written_after_call)

lemma touched_fields:
  "ID (touched now name unit) = ID unit"
  "Version (touched now name unit) = Version unit + 1"
  "CreatedAt (touched now name unit) = CreatedAt unit"
  "UpdatedAt (touched now name unit) = now"
  "DeletedAt (touched now name unit) = DeletedAt unit"
  "UserID (touched now name unit) = UserID unit"
  "Name (touched now name unit) = name"
  by (simp_all add: on_local_Touch)

lemma deleted_fields:
  "ID (deleted now unit) = ID unit"
  "Version (deleted now unit) = Version unit"
  "CreatedAt (deleted now unit) = CreatedAt unit"
  "UpdatedAt (deleted now unit) = now"
  "DeletedAt (deleted now unit) = Some now"
  "UserID (deleted now unit) = UserID unit"
  "Name (deleted now unit) = Name unit"
  by (simp_all add: on_local_MarkDeleted)

text \<open>
  C2. When \<^verbatim>\<open>Update\<close> has fetched its unit: with no owner it fails with the missing-owner
  error, whatever the requesting user; with an owner other than the requesting user it fails
  with the mismatch error; in both cases the only repository call is the fetch, nothing is
  written, and the store is as the fetch left it. With the requesting user as owner the
  touched, renamed unit is validated again: a validation error is returned (joined with
  \<^verbatim>\<open>ErrBadParams\<close> in the use case) without a write, and otherwise the unit is handed to the
  repository's \<^verbatim>\<open>Update\<close> and returned. The same holds for \<^verbatim>\<open>Update\<close> of the service, with
  its own two sentinels.
\<close>

theorem Update_ownership:
  "(repo_GetByIDs repo [unit_id] (store w) = (Inr [unit], st) \<longrightarrow>
      (UserID unit = None \<longrightarrow>
         UseCase_Update validate repo now unit_id userID name w
           = (Inl ErrUserIDMissing, after_call (Call_GetByIDs [unit_id]) st w)) \<and>
      (UserID unit \<noteq> None \<and> UserID unit \<noteq> Some userID \<longrightarrow>
         UseCase_Update validate repo now unit_id userID name w
           = (Inl ErrUserIDMismatch, after_call (Call_GetByIDs [unit_id]) st w)) \<and>
      (UserID unit = Some userID \<longrightarrow>
         (\<forall>err. validate (touched now name unit) = Some err \<longrightarrow>
            UseCase_Update validate repo now unit_id userID name w
              = (Inl (Join ErrBadParams (Wrapf ''validate unit update: %w'' err)),
                 after_call (Call_GetByIDs [unit_id]) st w)) \<and>
         (\<forall>s2. validate (touched now name unit) = None \<and>
               repo_Update repo (touched now name unit) st = (None, s2) \<longrightarrow>
            UseCase_Update validate repo now unit_id userID name w
              = (Inr (touched now name unit),
                 after_call (Call_Update (touched now name unit)) s2
                   (after_call (Call_GetByIDs [unit_id]) st w)))) \<and>
      written_since w (after_call (Call_GetByIDs [unit_id]) st w) = [])
   \<and>
   (srepo_GetByID srepo unit_id (store sw) = (Inr sunit, sst) \<longrightarrow>
      (UserID sunit = None \<longrightarrow>
         Service_Update validate srepo now unit_id userID name sw
           = (Inl Service_ErrUserIDMissing, after_call (Call_GetByID unit_id) sst sw)) \<and>
      (UserID sunit \<noteq> None \<and> UserID sunit \<noteq> Some userID \<longrightarrow>
         Service_Update validate srepo now unit_id userID name sw
           = (Inl Service_ErrUserIDMismatch, after_call (Call_GetByID unit_id) sst sw)) \<and>
      (UserID sunit = Some userID \<longrightarrow>
         (\<forall>err. validate (touched now name sunit) = Some err \<longrightarrow>
            Service_Update validate srepo now unit_id userID name sw
              = (Inl (Wrapf ''validate unit update: %w'' err),
                 after_call (Call_GetByID unit_id) sst sw)) \<and>
         (\<forall>s2. validate (touched now name sunit) = None \<and>
               srepo_Update srepo (touched now name sunit) sst = (None, s2) \<longrightarrow>
            Service_Update validate srepo now unit_id userID name sw
              = (Inr (touched now name sunit),
                 after_call (Call_Update (touched now name sunit)) s2
                   (after_call (Call_GetByID unit_id) sst sw)))) \<and>
      written_since sw (after_call (Call_GetByID unit_id) sst sw) = [])"
  by (auto simp: UseCase_Update_fetched Service_Update_fetched written_since_read)

lemma mem_Service_GetByID_unit_A:
  "srepo_GetByID mem_Service_Repository 1 (store (empty_world [unit_A])) = (Inr unit_A, [unit_A])"
  by (simp add: mem_Service_Repository_def empty_world_def ID_unit_A)

lemma mem_Service_Update:
  "srepo_Update mem_Service_Repository u s = (None, map (\<lambda>v. if ID v = ID u then u else v) s)"
  by (simp add: mem_Service_Repository_def)

lemma mem_GetByIDs_single:
  "ID u = i \<Longrightarrow> repo_GetByIDs mem_Repository [i] (store (empty_world [u])) = (Inr [u], [u])"
  by (simp add: mem_GetByIDs empty_world_def)

lemma touched_unit_A:
  "touched now name unit_A = unit_A\<lparr>Version := 2, UpdatedAt := now, Name := name\<rparr>"
  by (simp add: on_local_Touch unit_A_def)

lemma Validate_touched_unit_A:
  "Validate (unit_A\<lparr>Version := 2, UpdatedAt := t_late, Name := ''Beta''\<rparr>) = None"
  by (simp add: Validate_iff_invariant_tags invariant_tags_def unit_A_def t_early_def t_late_def
      Time_zero_def uuid_Nil_def word_sle_eq)

lemma Validate_unnamed_unit_A:
  "Validate (unit_A\<lparr>Version := 2, UpdatedAt := t_late, Name := []\<rparr>)
     = Some (ValidationErrors [FieldError ''Name'' ''required''])"
  by (simp add: Validate_def validate_Struct_def unit_A_def t_early_def t_late_def
      Time_zero_def uuid_Nil_def word_sless_alt Time_After_def Time_Equal_def)

theorem Update_ownership_witness:
  "repo_GetByIDs mem_Repository [1] (store (empty_world [unit_A])) = (Inr [unit_A], [unit_A]) \<and>
   UserID unit_A = Some 7 \<and>
   UseCase_Update Validate mem_Repository t_late 1 8 ''Beta'' (empty_world [unit_A])
     = (Inl ErrUserIDMismatch, \<lparr>store = [unit_A], calls = [Call_GetByIDs [1]]\<rparr>) \<and>
   UseCase_Update Validate mem_Repository t_late 1 7 ''Beta''
       (empty_world [unit_A\<lparr>UserID := None\<rparr>])
     = (Inl ErrUserIDMissing,
        \<lparr>store = [unit_A\<lparr>UserID := None\<rparr>], calls = [Call_GetByIDs [1]]\<rparr>) \<and>
   UseCase_Update Validate mem_Repository t_late 1 7 [] (empty_world [unit_A])
     = (Inl (Join ErrBadParams (Wrapf ''validate unit update: %w''
               (ValidationErrors [FieldError ''Name'' ''required'']))),
        \<lparr>store = [unit_A], calls = [Call_GetByIDs [1]]\<rparr>) \<and>
   UseCase_Update Validate mem_Repository t_late 1 7 ''Beta'' (empty_world [unit_A])
     = (Inr (unit_A\<lparr>Version := 2, UpdatedAt := t_late, Name := ''Beta''\<rparr>),
        \<lparr>store = [unit_A\<lparr>Version := 2, UpdatedAt := t_late, Name := ''Beta''\<rparr>],
         calls = [Call_GetByIDs [1],
                  Call_Update (unit_A\<lparr>Version := 2, UpdatedAt := t_late, Name := ''Beta''\<rparr>)]\<rparr>) \<and>
   Service_Update Validate mem_Service_Repository t_late 1 8 ''Beta'' (empty_world [unit_A])
     = (Inl Service_ErrUserIDMismatch, \<lparr>store = [unit_A], calls = [Call_GetByID 1]\<rparr>) \<and>
   Service_Update Validate mem_Service_Repository t_late 1 7 ''Beta'' (empty_world [unit_A])
     = (Inr (unit_A\<lparr>Version := 2, UpdatedAt := t_late, Name := ''Beta''\<rparr>),
        \<lparr>store = [unit_A\<lparr>Version := 2, UpdatedAt := t_late, Name := ''Beta''\<rparr>],
         calls = [Call_GetByID 1,
                  Call_Update (unit_A\<lparr>Version := 2, UpdatedAt := t_late, Name := ''Beta''\<rparr>)]\<rparr>)"
proof -
  have fA: "repo_GetByIDs mem_Repository [1] (store (empty_world [unit_A])) = (Inr [unit_A], [unit_A])"
    by (simp add: mem_GetByIDs_single ID_unit_A)
  have fU: "repo_GetByIDs mem_Repository [1] (store (empty_world [unit_A\<lparr>UserID := None\<rparr>]))
              = (Inr [unit_A\<lparr>UserID := None\<rparr>], [unit_A\<lparr>UserID := None\<rparr>])"
    by (simp add: mem_GetByIDs_single ID_unit_A)
  have owner: "UserID unit_A = Some 7"
    by (simp add: unit_A_def)
  note sA = mem_Service_GetByID_unit_A
  note mismatch = Update_ownership [where repo = mem_Repository and unit_id = 1 and w = "empty_world [unit_A]"
      and unit = unit_A and st = "[unit_A]" and validate = Validate and now = t_late
      and userID = 8 and name = "''Beta''" and srepo = mem_Service_Repository
      and sw = "empty_world [unit_A]" and sunit = unit_A and sst = "[unit_A]"]
  note missing = Update_ownership [where repo = mem_Repository and unit_id = 1
      and w = "empty_world [unit_A\<lparr>UserID := None\<rparr>]"
      and unit = "unit_A\<lparr>UserID := None\<rparr>" and st = "[unit_A\<lparr>UserID := None\<rparr>]"
      and validate = Validate and now = t_late
      and userID = 7 and name = "''Beta''" and srepo = mem_Service_Repository
      and sw = "empty_world [unit_A]" and sunit = unit_A and sst = "[unit_A]"]
  note unnamed = Update_ownership [where repo = mem_Repository and unit_id = 1 and w = "empty_world [unit_A]"
      and unit = unit_A and st = "[unit_A]" and validate = Validate and now = t_late
      and userID = 7 and name = "[]" and srepo = mem_Service_Repository
      and sw = "empty_world [unit_A]" and sunit = unit_A and sst = "[unit_A]"]
  note equal = Update_ownership [where repo = mem_Repository and unit_id = 1 and w = "empty_world [unit_A]"
      and unit = unit_A and st = "[unit_A]" and validate = Validate and now = t_late
      and userID = 7 and name = "''Beta''" and srepo = mem_Service_Repository
      and sw = "empty_world [unit_A]" and sunit = unit_A and sst = "[unit_A]"]
  have 1: "UseCase_Update Validate mem_Repository t_late 1 8 ''Beta'' (empty_world [unit_A])
     = (Inl ErrUserIDMismatch, \<lparr>store = [unit_A], calls = [Call_GetByIDs [1]]\<rparr>)"
    and 5: "Service_Update Validate mem_Service_Repository t_late 1 8 ''Beta'' (empty_world [unit_A])
     = (Inl Service_ErrUserIDMismatch, \<lparr>store = [unit_A], calls = [Call_GetByID 1]\<rparr>)"
    using mismatch fA sA owner by (simp_all add: after_call_def empty_world_def)
  have 2: "UseCase_Update Validate mem_Repository t_late 1 7 ''Beta''
       (empty_world [unit_A\<lparr>UserID := None\<rparr>])
     = (Inl ErrUserIDMissing,
        \<lparr>store = [unit_A\<lparr>UserID := None\<rparr>], calls = [Call_GetByIDs [1]]\<rparr>)"
    using missing fU by (simp add: after_call_def empty_world_def)
  have 3: "UseCase_Update Validate mem_Repository t_late 1 7 [] (empty_world [unit_A])
     = (Inl (Join ErrBadParams (Wrapf ''validate unit update: %w''
               (ValidationErrors [FieldError ''Name'' ''required'']))),
        \<lparr>store = [unit_A], calls = [Call_GetByIDs [1]]\<rparr>)"
    using unnamed fA owner
    by (simp add: touched_unit_A Validate_unnamed_unit_A after_call_def empty_world_def)
  have 4: "UseCase_Update Validate mem_Repository t_late 1 7 ''Beta'' (empty_world [unit_A])
     = (Inr (unit_A\<lparr>Version := 2, UpdatedAt := t_late, Name := ''Beta''\<rparr>),
        \<lparr>store = [unit_A\<lparr>Version := 2, UpdatedAt := t_late, Name := ''Beta''\<rparr>],
         calls = [Call_GetByIDs [1],
                  Call_Update (unit_A\<lparr>Version := 2, UpdatedAt := t_late, Name := ''Beta''\<rparr>)]\<rparr>)"
    and 6: "Service_Update Validate mem_Service_Repository t_late 1 7 ''Beta'' (empty_world [unit_A])
     = (Inr (unit_A\<lparr>Version := 2, UpdatedAt := t_late, Name := ''Beta''\<rparr>),
        \<lparr>store = [unit_A\<lparr>Version := 2, UpdatedAt := t_late, Name := ''Beta''\<rparr>],
         calls = [Call_GetByID 1,
                  Call_Update (unit_A\<lparr>Version := 2, UpdatedAt := t_late, Name := ''Beta''\<rparr>)]\<rparr>)"
    using equal fA sA owner
    by (simp_all add: touched_unit_A Validate_touched_unit_A mem_Update mem_Service_Update
        after_call_def empty_world_def ID_unit_A)
  show ?thesis using fA owner 1 2 3 4 5 6 by simp
qed

text \<open>
  C5. For every prior state of a unit and every clock reading other than the zero time,
  \<^verbatim>\<open>MarkDeleted\<close> sets deletedAt to a non-zero timestamp equal to the resulting updatedAt and
  leaves version as it was. So \<^verbatim>\<open>Delete\<close>, when the fetch gives exactly one unit and the
  repository accepts the write, returns that unit with deletedAt set to the clock reading
  and with the version it had when fetched; the same unit is what was handed to the
  repository's \<^verbatim>\<open>Update\<close>.
\<close>

theorem MarkDeleted_and_Delete:
  "\<not> Time_IsZero now \<longrightarrow>
     (\<exists>u'. MarkDeleted now (Some u) = Some u' \<and> DeletedAt u' = Some (UpdatedAt u') \<and>
        \<not> Time_IsZero (UpdatedAt u') \<and> Version u' = Version u) \<and>
     (\<forall>st st'. repo_GetByIDs repo [unit_id] (store w) = (Inr [unit], st) \<and>
        repo_Update repo (deleted now unit) st = (None, st') \<longrightarrow>
        UseCase_Delete repo now unit_id w
          = (Inr (deleted now unit),
             after_call (Call_Update (deleted now unit)) st'
               (after_call (Call_GetByIDs [unit_id]) st w)) \<and>
        DeletedAt (deleted now unit) = Some now \<and> Version (deleted now unit) = Version unit) \<and>
     (\<forall>st st'. srepo_GetByID srepo unit_id (store sw) = (Inr sunit, st) \<and>
        srepo_Update srepo (deleted now sunit) st = (None, st') \<longrightarrow>
        Service_Delete srepo now unit_id sw
          = (Inr (deleted now sunit),
             after_call (Call_Update (deleted now sunit)) st'
               (after_call (Call_GetByID unit_id) st sw)) \<and>
        DeletedAt (deleted now sunit) = Some now \<and> Version (deleted now sunit) = Version sunit)"
  by (auto simp: MarkDeleted_def UseCase_Delete_fetched Service_Delete_fetched deleted_fields)

lemma UserID_unit_A: "UserID unit_A = Some 7"
  by (simp add: unit_A_def)

lemma deleted_unit_A:
  "deleted now unit_A = unit_A\<lparr>UpdatedAt := now, DeletedAt := Some now\<rparr>"
  by (simp add: on_local_MarkDeleted)

theorem MarkDeleted_and_Delete_witness:
  "\<not> Time_IsZero t_late \<and>
   MarkDeleted t_late (Some unit_A) = Some (unit_A\<lparr>UpdatedAt := t_late, DeletedAt := Some t_late\<rparr>) \<and>
   Version (unit_A\<lparr>UpdatedAt := t_late, DeletedAt := Some t_late\<rparr>) = Version unit_A \<and>
   repo_GetByIDs mem_Repository [1] (store (empty_world [unit_A])) = (Inr [unit_A], [unit_A]) \<and>
   UseCase_Delete mem_Repository t_late 1 (empty_world [unit_A])
     = (Inr (unit_A\<lparr>UpdatedAt := t_late, DeletedAt := Some t_late\<rparr>),
        \<lparr>store = [unit_A\<lparr>UpdatedAt := t_late, DeletedAt := Some t_late\<rparr>],
         calls = [Call_GetByIDs [1],
                  Call_Update (unit_A\<lparr>UpdatedAt := t_late, DeletedAt := Some t_late\<rparr>)]\<rparr>) \<and>
   Service_Delete mem_Service_Repository t_late 1 (empty_world [unit_A])
     = (Inr (unit_A\<lparr>UpdatedAt := t_late, DeletedAt := Some t_late\<rparr>),
        \<lparr>store = [unit_A\<lparr>UpdatedAt := t_late, DeletedAt := Some t_late\<rparr>],
         calls = [Call_GetByID 1,
                  Call_Update (unit_A\<lparr>UpdatedAt := t_late, DeletedAt := Some t_late\<rparr>)]\<rparr>)"
proof -
  have z: "\<not> Time_IsZero t_late"
    by (simp add: Time_IsZero_def t_late_def)
  have fA: "repo_GetByIDs mem_Repository [1] (store (empty_world [unit_A])) = (Inr [unit_A], [unit_A])"
    by (simp add: mem_GetByIDs_single ID_unit_A)
  note sA = mem_Service_GetByID_unit_A
  note inst = MarkDeleted_and_Delete [where now = t_late and u = unit_A and repo = mem_Repository and unit_id = 1
      and w = "empty_world [unit_A]" and unit = unit_A and srepo = mem_Service_Repository
      and sw = "empty_world [unit_A]" and sunit = unit_A]
  have m: "MarkDeleted t_late (Some unit_A)
             = Some (unit_A\<lparr>UpdatedAt := t_late, DeletedAt := Some t_late\<rparr>)"
    by (simp add: MarkDeleted_def)
  have u: "UseCase_Delete mem_Repository t_late 1 (empty_world [unit_A])
     = (Inr (unit_A\<lparr>UpdatedAt := t_late, DeletedAt := Some t_late\<rparr>),
        \<lparr>store = [unit_A\<lparr>UpdatedAt := t_late, DeletedAt := Some t_late\<rparr>],
         calls = [Call_GetByIDs [1],
                  Call_Update (unit_A\<lparr>UpdatedAt := t_late, DeletedAt := Some t_late\<rparr>)]\<rparr>)"
    and s: "Service_Delete mem_Service_Repository t_late 1 (empty_world [unit_A])
     = (Inr (unit_A\<lparr>UpdatedAt := t_late, DeletedAt := Some t_late\<rparr>),
        \<lparr>store = [unit_A\<lparr>UpdatedAt := t_late, DeletedAt := Some t_late\<rparr>],
         calls = [Call_GetByID 1,
                  Call_Update (unit_A\<lparr>UpdatedAt := t_late, DeletedAt := Some t_late\<rparr>)]\<rparr>)"
    using inst z fA sA
    by (simp_all add: deleted_unit_A mem_Update mem_Service_Update after_call_def empty_world_def
        ID_unit_A)
  show ?thesis using z m fA u s by simp
qed

lemma UseCase_Update_returns:
  "repo_GetByIDs repo [unit_id] (store w) = (Inr [unit], st) \<Longrightarrow>
   fst (UseCase_Update validate repo now unit_id userID name w) = Inr u' \<Longrightarrow>
   u' = touched now name unit"
  by (auto simp: UseCase_Update_fetched split: option.splits prod.splits if_splits)

lemma UseCase_Update_writes:
  "repo_GetByIDs repo [unit_id] (store w) = (Inr [unit], st) \<Longrightarrow>
   u' \<in> set (written_since w (snd (UseCase_Update validate repo now unit_id userID name w))) \<Longrightarrow>
   u' = touched now name unit"
  by (auto simp: UseCase_Update_fetched written_since_read written_since_write
      split: option.splits prod.splits if_splits)

lemma Service_Update_returns:
  "srepo_GetByID repo unit_id (store w) = (Inr unit, st) \<Longrightarrow>
   fst (Service_Update validate repo now unit_id userID name w) = Inr u' \<Longrightarrow>
   u' = touched now name unit"
  by (auto simp: Service_Update_fetched split: option.splits prod.splits if_splits)

lemma Service_Update_writes:
  "srepo_GetByID repo unit_id (store w) = (Inr unit, st) \<Longrightarrow>
   u' \<in> set (written_since w (snd (Service_Update validate repo now unit_id userID name w))) \<Longrightarrow>
   u' = touched now name unit"
  by (auto simp: Service_Update_fetched written_since_read written_since_write
      split: option.splits prod.splits if_splits)

lemma UseCase_Delete_returns:
  "repo_GetByIDs repo [unit_id] (store w) = (Inr [unit], st) \<Longrightarrow>
   fst (UseCase_Delete repo now unit_id w) = Inr u' \<Longrightarrow> u' = deleted now unit"
  by (auto simp: UseCase_Delete_fetched split: option.splits prod.splits)

lemma UseCase_Delete_writes:
  "repo_GetByIDs repo [unit_id] (store w) = (Inr [unit], st) \<Longrightarrow>
   u' \<in> set (written_since w (snd (UseCase_Delete repo now unit_id w))) \<Longrightarrow>
   u' = deleted now unit"
  by (auto simp: UseCase_Delete_fetched written_since_write split: option.splits prod.splits)

lemma Service_Delete_returns:
  "srepo_GetByID repo unit_id (store w) = (Inr unit, st) \<Longrightarrow>
   fst (Service_Delete repo now unit_id w) = Inr u' \<Longrightarrow> u' = deleted now unit"
  by (auto simp: Service_Delete_fetched split: option.splits prod.splits)

lemma Service_Delete_writes:
  "srepo_GetByID repo unit_id (store w) = (Inr unit, st) \<Longrightarrow>
   u' \<in> set (written_since w (snd (Service_Delete repo now unit_id w))) \<Longrightarrow>
   u' = deleted now unit"
  by (auto simp: Service_Delete_fetched written_since_write split: option.splits prod.splits)

lemma UseCase_keeps_deleted:
  assumes f: "repo_GetByIDs repo [unit_id] (store w) = (Inr [unit], st)"
    and d: "DeletedAt unit \<noteq> None"
  shows "\<forall>u'. fst (UseCase_Update validate repo now unit_id userID name w) = Inr u' \<longrightarrow>
           ID u' = ID unit \<and> DeletedAt u' \<noteq> None"
    and "\<forall>u' \<in> set (written_since w (snd (UseCase_Update validate repo now unit_id userID name w))).
           ID u' = ID unit \<and> DeletedAt u' \<noteq> None"
    and "\<forall>u'. fst (UseCase_Delete repo now unit_id w) = Inr u' \<longrightarrow>
           ID u' = ID unit \<and> DeletedAt u' \<noteq> None"
    and "\<forall>u' \<in> set (written_since w (snd (UseCase_Delete repo now unit_id w))).
           ID u' = ID unit \<and> DeletedAt u' \<noteq> None"
proof -
  have t: "ID (touched now name unit) = ID unit \<and> DeletedAt (touched now name unit) \<noteq> None"
    using d by (simp add: touched_fields)
  have m: "ID (deleted now unit) = ID unit \<and> DeletedAt (deleted now unit) \<noteq> None"
    by (simp add: deleted_fields)
  show "\<forall>u'. fst (UseCase_Update validate repo now unit_id userID name w) = Inr u' \<longrightarrow>
           ID u' = ID unit \<and> DeletedAt u' \<noteq> None"
    using UseCase_Update_returns [OF f] t by blast
  show "\<forall>u' \<in> set (written_since w (snd (UseCase_Update validate repo now unit_id userID name w))).
           ID u' = ID unit \<and> DeletedAt u' \<noteq> None"
    using UseCase_Update_writes [OF f] t by blast
  show "\<forall>u'. fst (UseCase_Delete repo now unit_id w) = Inr u' \<longrightarrow>
           ID u' = ID unit \<and> DeletedAt u' \<noteq> None"
    using UseCase_Delete_returns [OF f] m by blast
  show "\<forall>u' \<in> set (written_since w (snd (UseCase_Delete repo now unit_id w))).
           ID u' = ID unit \<and> DeletedAt u' \<noteq> None"
    using UseCase_Delete_writes [OF f] m by blast
qed

lemma Service_keeps_deleted:
  assumes f: "srepo_GetByID repo unit_id (store w) = (Inr unit, st)"
    and d: "DeletedAt unit \<noteq> None"
  shows "\<forall>u'. fst (Service_Update validate repo now unit_id userID name w) = Inr u' \<longrightarrow>
           ID u' = ID unit \<and> DeletedAt u' \<noteq> None"
    and "\<forall>u' \<in> set (written_since w (snd (Service_Update validate repo now unit_id userID name w))).
           ID u' = ID unit \<and> DeletedAt u' \<noteq> None"
    and "\<forall>u'. fst (Service_Delete repo now unit_id w) = Inr u' \<longrightarrow>
           ID u' = ID unit \<and> DeletedAt u' \<noteq> None"
    and "\<forall>u' \<in> set (written_since w (snd (Service_Delete repo now unit_id w))).
           ID u' = ID unit \<and> DeletedAt u' \<noteq> None"
proof -
  have t: "ID (touched now name unit) = ID unit \<and> DeletedAt (touched now name unit) \<noteq> None"
    using d by (simp add: touched_fields)
  have m: "ID (deleted now unit) = ID unit \<and> DeletedAt (deleted now unit) \<noteq> None"
    by (simp add: deleted_fields)
  show "\<forall>u'. fst (Service_Update validate repo now unit_id userID name w) = Inr u' \<longrightarrow>
           ID u' = ID unit \<and> DeletedAt u' \<noteq> None"
    using Service_Update_returns [OF f] t by blast
  show "\<forall>u' \<in> set (written_since w (snd (Service_Update validate repo now unit_id userID name w))).
           ID u' = ID unit \<and> DeletedAt u' \<noteq> None"
    using Service_Update_writes [OF f] t by blast
  show "\<forall>u'. fst (Service_Delete repo now unit_id w) = Inr u' \<longrightarrow>
           ID u' = ID unit \<and> DeletedAt u' \<noteq> None"
    using Service_Delete_returns [OF f] m by blast
  show "\<forall>u' \<in> set (written_since w (snd (Service_Delete repo now unit_id w))).
           ID u' = ID unit \<and> DeletedAt u' \<noteq> None"
    using Service_Delete_writes [OF f] m by blast
qed

text \<open>
  C6. No operation makes a present deletedAt absent. \<^verbatim>\<open>Touch\<close> leaves deletedAt as it is and
  \<^verbatim>\<open>MarkDeleted\<close> sets it. When \<^verbatim>\<open>Update\<close> or \<^verbatim>\<open>Delete\<close> fetches a unit whose deletedAt
  is present, every unit the operation returns and every unit it hands to a writing call of
  the repository is that unit (same identifier) with deletedAt present. This holds for the
  use case and for the service.
\<close>

theorem deleted_stays_deleted:
  "(\<exists>u'. Touch now (Some u) = Some u' \<and> DeletedAt u' = DeletedAt u) \<and>
   (\<exists>u'. MarkDeleted now (Some u) = Some u' \<and> DeletedAt u' \<noteq> None) \<and>
   (\<forall>st. repo_GetByIDs repo [unit_id] (store w) = (Inr [unit], st) \<and> DeletedAt unit \<noteq> None \<longrightarrow>
      (\<forall>u'. fst (UseCase_Update validate repo now unit_id userID name w) = Inr u' \<longrightarrow>
         ID u' = ID unit \<and> DeletedAt u' \<noteq> None) \<and>
      (\<forall>u' \<in> set (written_since w (snd (UseCase_Update validate repo now unit_id userID name w))).
         ID u' = ID unit \<and> DeletedAt u' \<noteq> None) \<and>
      (\<forall>u'. fst (UseCase_Delete repo now unit_id w) = Inr u' \<longrightarrow>
         ID u' = ID unit \<and> DeletedAt u' \<noteq> None) \<and>
      (\<forall>u' \<in> set (written_since w (snd (UseCase_Delete repo now unit_id w))).
         ID u' = ID unit \<and> DeletedAt u' \<noteq> None)) \<and>
   (\<forall>st. srepo_GetByID srepo unit_id (store sw) = (Inr sunit, st) \<and> DeletedAt sunit \<noteq> None \<longrightarrow>
      (\<forall>u'. fst (Service_Update validate srepo now unit_id userID name sw) = Inr u' \<longrightarrow>
         ID u' = ID sunit \<and> DeletedAt u' \<noteq> None) \<and>
      (\<forall>u' \<in> set (written_since sw (snd (Service_Update validate srepo now unit_id userID name sw))).
         ID u' = ID sunit \<and> DeletedAt u' \<noteq> None) \<and>
      (\<forall>u'. fst (Service_Delete srepo now unit_id sw) = Inr u' \<longrightarrow>
         ID u' = ID sunit \<and> DeletedAt u' \<noteq> None) \<and>
      (\<forall>u' \<in> set (written_since sw (snd (Service_Delete srepo now unit_id sw))).
         ID u' = ID sunit \<and> DeletedAt u' \<noteq> None))"
proof -
  have touch: "\<exists>u'. Touch now (Some u) = Some u' \<and> DeletedAt u' = DeletedAt u"
    by (simp add: Touch_def)
  have mark: "\<exists>u'. MarkDeleted now (Some u) = Some u' \<and> DeletedAt u' \<noteq> None"
    by (simp add: MarkDeleted_def)
  have use_case: "\<forall>st. repo_GetByIDs repo [unit_id] (store w) = (Inr [unit], st) \<and> DeletedAt unit \<noteq> None \<longrightarrow>
      (\<forall>u'. fst (UseCase_Update validate repo now unit_id userID name w) = Inr u' \<longrightarrow>
         ID u' = ID unit \<and> DeletedAt u' \<noteq> None) \<and>
      (\<forall>u' \<in> set (written_since w (snd (UseCase_Update validate repo now unit_id userID name w))).
         ID u' = ID unit \<and> DeletedAt u' \<noteq> None) \<and>
      (\<forall>u'. fst (UseCase_Delete repo now unit_id w) = Inr u' \<longrightarrow>
         ID u' = ID unit \<and> DeletedAt u' \<noteq> None) \<and>
      (\<forall>u' \<in> set (written_since w (snd (UseCase_Delete repo now unit_id w))).
         ID u' = ID unit \<and> DeletedAt u' \<noteq> None)"
  proof (intro allI impI, elim conjE)
    fix st
    assume f: "repo_GetByIDs repo [unit_id] (store w) = (Inr [unit], st)"
      and d: "DeletedAt unit \<noteq> None"
    note k = UseCase_keeps_deleted [OF f d]
    show "(\<forall>u'. fst (UseCase_Update validate repo now unit_id userID name w) = Inr u' \<longrightarrow>
         ID u' = ID unit \<and> DeletedAt u' \<noteq> None) \<and>
      (\<forall>u' \<in> set (written_since w (snd (UseCase_Update validate repo now unit_id userID name w))).
         ID u' = ID unit \<and> DeletedAt u' \<noteq> None) \<and>
      (\<forall>u'. fst (UseCase_Delete repo now unit_id w) = Inr u' \<longrightarrow>
         ID u' = ID unit \<and> DeletedAt u' \<noteq> None) \<and>
      (\<forall>u' \<in> set (written_since w (snd (UseCase_Delete repo now unit_id w))).
         ID u' = ID unit \<and> DeletedAt u' \<noteq> None)"
      by (intro conjI k)
  qed
  have service: "\<forall>st. srepo_GetByID srepo unit_id (store sw) = (Inr sunit, st) \<and> DeletedAt sunit \<noteq> None \<longrightarrow>
      (\<forall>u'. fst (Service_Update validate srepo now unit_id userID name sw) = Inr u' \<longrightarrow>
         ID u' = ID sunit \<and> DeletedAt u' \<noteq> None) \<and>
      (\<forall>u' \<in> set (written_since sw (snd (Service_Update validate srepo now unit_id userID name sw))).
         ID u' = ID sunit \<and> DeletedAt u' \<noteq> None) \<and>
      (\<forall>u'. fst (Service_Delete srepo now unit_id sw) = Inr u' \<longrightarrow>
         ID u' = ID sunit \<and> DeletedAt u' \<noteq> None) \<and>
      (\<forall>u' \<in> set (written_since sw (snd (Service_Delete srepo now unit_id sw))).
         ID u' = ID sunit \<and> DeletedAt u' \<noteq> None)"
  proof (intro allI impI, elim conjE)
    fix st
    assume f: "srepo_GetByID srepo unit_id (store sw) = (Inr sunit, st)"
      and d: "DeletedAt sunit \<noteq> None"
    note k = Service_keeps_deleted [OF f d]
    show "(\<forall>u'. fst (Service_Update validate srepo now unit_id userID name sw) = Inr u' \<longrightarrow>
         ID u' = ID sunit \<and> DeletedAt u' \<noteq> None) \<and>
      (\<forall>u' \<in> set (written_since sw (snd (Service_Update validate srepo now unit_id userID name sw))).
         ID u' = ID sunit \<and> DeletedAt u' \<noteq> None) \<and>
      (\<forall>u'. fst (Service_Delete srepo now unit_id sw) = Inr u' \<longrightarrow>
         ID u' = ID sunit \<and> DeletedAt u' \<noteq> None) \<and>
      (\<forall>u' \<in> set (written_since sw (snd (Service_Delete srepo now unit_id sw))).
         ID u' = ID sunit \<and> DeletedAt u' \<noteq> None)"
      by (intro conjI k)
  qed
  show ?thesis by (intro conjI touch mark use_case service)
qed


lemma unit_D_fields:
  "ID unit_D = 1" "UserID unit_D = Some 7" "DeletedAt unit_D = Some t_early"
  by (simp_all add: unit_D_def unit_A_def)

lemma Validate_touched_unit_D:
  "Validate (touched t_late ''Beta'' unit_D) = None"
  using Validate_touched_unit_A
  by (simp add: Validate_iff_invariant_tags invariant_tags_def on_local_Touch unit_D_def unit_A_def)

theorem deleted_stays_deleted_witness:
  "repo_GetByIDs mem_Repository [1] (store (empty_world [unit_D])) = (Inr [unit_D], [unit_D]) \<and>
   srepo_GetByID mem_Service_Repository 1 (store (empty_world [unit_D])) = (Inr unit_D, [unit_D]) \<and>
   DeletedAt unit_D \<noteq> None \<and>
   UseCase_Update Validate mem_Repository t_late 1 7 ''Beta'' (empty_world [unit_D])
     = (Inr (touched t_late ''Beta'' unit_D),
        \<lparr>store = [touched t_late ''Beta'' unit_D],
         calls = [Call_GetByIDs [1], Call_Update (touched t_late ''Beta'' unit_D)]\<rparr>) \<and>
   Service_Update Validate mem_Service_Repository t_late 1 7 ''Beta'' (empty_world [unit_D])
     = (Inr (touched t_late ''Beta'' unit_D),
        \<lparr>store = [touched t_late ''Beta'' unit_D],
         calls = [Call_GetByID 1, Call_Update (touched t_late ''Beta'' unit_D)]\<rparr>) \<and>
   UseCase_Delete mem_Repository t_late 1 (empty_world [unit_D])
     = (Inr (deleted t_late unit_D),
        \<lparr>store = [deleted t_late unit_D],
         calls = [Call_GetByIDs [1], Call_Update (deleted t_late unit_D)]\<rparr>) \<and>
   Service_Delete mem_Service_Repository t_late 1 (empty_world [unit_D])
     = (Inr (deleted t_late unit_D),
        \<lparr>store = [deleted t_late unit_D],
         calls = [Call_GetByID 1, Call_Update (deleted t_late unit_D)]\<rparr>) \<and>
   ID (touched t_late ''Beta'' unit_D) = 1 \<and>
   DeletedAt (touched t_late ''Beta'' unit_D) = Some t_early \<and>
   ID (deleted t_late unit_D) = 1 \<and>
   DeletedAt (deleted t_late unit_D) = Some t_late"
proof -
  have fD: "repo_GetByIDs mem_Repository [1] (store (empty_world [unit_D])) = (Inr [unit_D], [unit_D])"
    by (simp add: mem_GetByIDs_single unit_D_fields)
  have sD: "srepo_GetByID mem_Service_Repository 1 (store (empty_world [unit_D])) = (Inr unit_D, [unit_D])"
    by (simp add: mem_Service_Repository_def empty_world_def unit_D_fields)
  have d: "DeletedAt unit_D \<noteq> None"
    by (simp add: unit_D_fields)
  note v = Validate_touched_unit_D
  have uu: "UseCase_Update Validate mem_Repository t_late 1 7 ''Beta'' (empty_world [unit_D])
     = (Inr (touched t_late ''Beta'' unit_D),
        \<lparr>store = [touched t_late ''Beta'' unit_D],
         calls = [Call_GetByIDs [1], Call_Update (touched t_late ''Beta'' unit_D)]\<rparr>)"
    by (subst UseCase_Update_fetched [OF fD])
      (simp add: v mem_Update after_call_def empty_world_def unit_D_fields touched_fields)
  have su: "Service_Update Validate mem_Service_Repository t_late 1 7 ''Beta'' (empty_world [unit_D])
     = (Inr (touched t_late ''Beta'' unit_D),
        \<lparr>store = [touched t_late ''Beta'' unit_D],
         calls = [Call_GetByID 1, Call_Update (touched t_late ''Beta'' unit_D)]\<rparr>)"
    by (subst Service_Update_fetched [OF sD])
      (simp add: v mem_Service_Update after_call_def empty_world_def unit_D_fields touched_fields)
  have ud: "UseCase_Delete mem_Repository t_late 1 (empty_world [unit_D])
     = (Inr (deleted t_late unit_D),
        \<lparr>store = [deleted t_late unit_D],
         calls = [Call_GetByIDs [1], Call_Update (deleted t_late unit_D)]\<rparr>)"
    by (subst UseCase_Delete_fetched [OF fD])
      (simp add: mem_Update after_call_def empty_world_def unit_D_fields deleted_fields)
  have sd: "Service_Delete mem_Service_Repository t_late 1 (empty_world [unit_D])
     = (Inr (deleted t_late unit_D),
        \<lparr>store = [deleted t_late unit_D],
         calls = [Call_GetByID 1, Call_Update (deleted t_late unit_D)]\<rparr>)"
    by (subst Service_Delete_fetched [OF sD])
      (simp add: mem_Service_Update after_call_def empty_world_def unit_D_fields deleted_fields)
  note inst = deleted_stays_deleted [where repo = mem_Repository and unit_id = 1
      and validate = Validate and now = t_late and userID = 7 and name = "''Beta''"
      and w = "empty_world [unit_D]" and unit = unit_D and u = unit_D
      and srepo = mem_Service_Repository and sunit = unit_D and sw = "empty_world [unit_D]"]
  from inst fD sD d have kept:
    "\<forall>u'. fst (UseCase_Update Validate mem_Repository t_late 1 7 ''Beta'' (empty_world [unit_D])) = Inr u'
        \<longrightarrow> ID u' = ID unit_D \<and> DeletedAt u' \<noteq> None"
    "\<forall>u'. fst (UseCase_Delete mem_Repository t_late 1 (empty_world [unit_D])) = Inr u'
        \<longrightarrow> ID u' = ID unit_D \<and> DeletedAt u' \<noteq> None"
    by blast+
  have ids: "ID (touched t_late ''Beta'' unit_D) = 1" "ID (deleted t_late unit_D) = 1"
    using kept uu ud by (simp_all add: unit_D_fields)
  have dels: "DeletedAt (touched t_late ''Beta'' unit_D) = Some t_early"
    "DeletedAt (deleted t_late unit_D) = Some t_late"
    by (simp_all add: touched_fields deleted_fields unit_D_fields)
  show ?thesis
    by (intro conjI fD sD d uu su ud sd ids dels)
qed

text \<open>
  C10. For every user identifier the caller gives, \<^verbatim>\<open>Create\<close> of the use case constructs the
  unit with that identifier as its present owner: when validation accepts the new unit and
  the repository accepts the write, exactly the unit \<open>New newid now (Some userID) name\<close> is
  handed to the repository's \<^verbatim>\<open>Create\<close> and returned, and no unit with another or no owner
  is ever returned or written. With \<^verbatim>\<open>Validate\<close> of \<^verbatim>\<open>unit.go\<close> and a non-empty name this
  is so for every user identifier, the nil identifier included: \<^verbatim>\<open>Create\<close> then succeeds and
  the persisted, returned unit has the nil identifier as its present owner.
  (The identifier drawn by \<^verbatim>\<open>uuid.New\<close> is taken not to be nil and the clock reading not to
  be the zero time.)
\<close>

theorem Create_owner_present:
  "(\<forall>st. validate (New newid now (Some userID) name) = None \<and>
      repo_Create repo (New newid now (Some userID) name) (store w) = (None, st) \<longrightarrow>
      UseCase_Create validate repo newid now userID name w
        = (Inr (New newid now (Some userID) name),
           after_call (Call_Create (New newid now (Some userID) name)) st w)) \<and>
   UserID (New newid now (Some userID) name) = Some userID \<and>
   (\<forall>u. fst (UseCase_Create validate repo newid now userID name w) = Inr u \<longrightarrow>
      UserID u = Some userID) \<and>
   (\<forall>u \<in> set (written_since w (snd (UseCase_Create validate repo newid now userID name w))).
      UserID u = Some userID) \<and>
   (\<forall>st. name \<noteq> [] \<and> newid \<noteq> uuid_Nil \<and> now \<noteq> Time_zero \<and>
      repo_Create repo (New newid now (Some userID) name) (store w) = (None, st) \<longrightarrow>
      UseCase_Create Validate repo newid now userID name w
        = (Inr (New newid now (Some userID) name),
           after_call (Call_Create (New newid now (Some userID) name)) st w)) \<and>
   (\<forall>st. name \<noteq> [] \<and> newid \<noteq> uuid_Nil \<and> now \<noteq> Time_zero \<and>
      repo_Create repo (New newid now (Some uuid_Nil) name) (store w) = (None, st) \<longrightarrow>
      UseCase_Create Validate repo newid now uuid_Nil name w
        = (Inr (New newid now (Some uuid_Nil) name),
           after_call (Call_Create (New newid now (Some uuid_Nil) name)) st w) \<and>
      UserID (New newid now (Some uuid_Nil) name) = Some uuid_Nil)"
proof -
  have accepted: "UseCase_Create v repo newid now i name w
        = (Inr (New newid now (Some i) name),
           after_call (Call_Create (New newid now (Some i) name)) st w)"
    if "v (New newid now (Some i) name) = None"
      and "repo_Create repo (New newid now (Some i) name) (store w) = (None, st)"
    for v i st
    using that by (simp add: UseCase_Create_eq)
  have tags: "Validate (New newid now (Some i) name) = None"
    if "name \<noteq> [] \<and> newid \<noteq> uuid_Nil \<and> now \<noteq> Time_zero" for i
    using that by (simp add: Validate_iff_invariant_tags invariant_tags_New)
  have returned: "\<forall>u. fst (UseCase_Create validate repo newid now userID name w) = Inr u \<longrightarrow>
      UserID u = Some userID"
    by (auto simp: UseCase_Create_eq New_fields split: option.splits prod.splits)
  have wrote: "\<forall>u \<in> set (written_since w (snd (UseCase_Create validate repo newid now userID name w))).
      UserID u = Some userID"
    by (auto simp: UseCase_Create_eq written_since_same written_since_write New_fields
        split: option.splits prod.splits)
  show ?thesis
    using accepted tags returned wrote by (simp add: New_fields)
qed

theorem Create_owner_present_witness:
  "''Alpha'' \<noteq> [] \<and> (1::uuid) \<noteq> uuid_Nil \<and> t_early \<noteq> Time_zero \<and>
   Validate (New 1 t_early (Some 7) ''Alpha'') = None \<and>
   repo_Create mem_Repository (New 1 t_early (Some 7) ''Alpha'') (store (empty_world []))
     = (None, [New 1 t_early (Some 7) ''Alpha'']) \<and>
   repo_Create mem_Repository (New 1 t_early (Some uuid_Nil) ''Alpha'') (store (empty_world []))
     = (None, [New 1 t_early (Some uuid_Nil) ''Alpha'']) \<and>
   UseCase_Create Validate mem_Repository 1 t_early 7 ''Alpha'' (empty_world [])
     = (Inr \<lparr>ID = 1, Version = 1, CreatedAt = t_early, UpdatedAt = t_early, DeletedAt = None,
             UserID = Some 7, Name = ''Alpha''\<rparr>,
        \<lparr>store = [\<lparr>ID = 1, Version = 1, CreatedAt = t_early, UpdatedAt = t_early,
                   DeletedAt = None, UserID = Some 7, Name = ''Alpha''\<rparr>],
         calls = [Call_Create \<lparr>ID = 1, Version = 1, CreatedAt = t_early, UpdatedAt = t_early,
                   DeletedAt = None, UserID = Some 7, Name = ''Alpha''\<rparr>]\<rparr>) \<and>
   UseCase_Create Validate mem_Repository 1 t_early uuid_Nil ''Alpha'' (empty_world [])
     = (Inr \<lparr>ID = 1, Version = 1, CreatedAt = t_early, UpdatedAt = t_early, DeletedAt = None,
             UserID = Some 0, Name = ''Alpha''\<rparr>,
        \<lparr>store = [\<lparr>ID = 1, Version = 1, CreatedAt = t_early, UpdatedAt = t_early,
                   DeletedAt = None, UserID = Some 0, Name = ''Alpha''\<rparr>],
         calls = [Call_Create \<lparr>ID = 1, Version = 1, CreatedAt = t_early, UpdatedAt = t_early,
                   DeletedAt = None, UserID = Some 0, Name = ''Alpha''\<rparr>]\<rparr>)"
proof -
  have h: "''Alpha'' \<noteq> []" "(1::uuid) \<noteq> uuid_Nil" "t_early \<noteq> Time_zero"
    by (simp_all add: uuid_Nil_def t_early_def Time_zero_def)
  have v: "Validate (New 1 t_early (Some 7) ''Alpha'') = None"
    using h by (simp add: Validate_iff_invariant_tags invariant_tags_New)
  have c: "repo_Create mem_Repository (New 1 t_early (Some i) ''Alpha'') (store (empty_world []))
     = (None, [New 1 t_early (Some i) ''Alpha''])" for i
    by (simp add: mem_Create empty_world_def)
  note user = Create_owner_present [where validate = Validate and repo = mem_Repository and newid = 1
      and now = t_early and userID = 7 and name = "''Alpha''" and w = "empty_world []"]
  note nil = Create_owner_present [where validate = Validate and repo = mem_Repository and newid = 1
      and now = t_early and userID = uuid_Nil and name = "''Alpha''" and w = "empty_world []"]
  have r: "UseCase_Create Validate mem_Repository 1 t_early 7 ''Alpha'' (empty_world [])
     = (Inr \<lparr>ID = 1, Version = 1, CreatedAt = t_early, UpdatedAt = t_early, DeletedAt = None,
             UserID = Some 7, Name = ''Alpha''\<rparr>,
        \<lparr>store = [\<lparr>ID = 1, Version = 1, CreatedAt = t_early, UpdatedAt = t_early,
                   DeletedAt = None, UserID = Some 7, Name = ''Alpha''\<rparr>],
         calls = [Call_Create \<lparr>ID = 1, Version = 1, CreatedAt = t_early, UpdatedAt = t_early,
                   DeletedAt = None, UserID = Some 7, Name = ''Alpha''\<rparr>]\<rparr>)"
    using user [THEN conjunct1] v c [of 7]
    by (simp add: New_def after_call_def empty_world_def)
  have n: "UseCase_Create Validate mem_Repository 1 t_early uuid_Nil ''Alpha'' (empty_world [])
     = (Inr \<lparr>ID = 1, Version = 1, CreatedAt = t_early, UpdatedAt = t_early, DeletedAt = None,
             UserID = Some 0, Name = ''Alpha''\<rparr>,
        \<lparr>store = [\<lparr>ID = 1, Version = 1, CreatedAt = t_early, UpdatedAt = t_early,
                   DeletedAt = None, UserID = Some 0, Name = ''Alpha''\<rparr>],
         calls = [Call_Create \<lparr>ID = 1, Version = 1, CreatedAt = t_early, UpdatedAt = t_early,
                   DeletedAt = None, UserID = Some 0, Name = ''Alpha''\<rparr>]\<rparr>)"
    using nil h c [of uuid_Nil] by (simp add: New_def after_call_def empty_world_def uuid_Nil_def)
  show ?thesis using h v c [of 7] c [of uuid_Nil] r n by simp
qed

section \<open>Runs on the in-memory repository\<close>

text \<open>
  Over the in-memory repository, whatever operations of the use-case layer follow, a stored
  unit whose deletedAt is present stays in its place with deletedAt present.
\<close>

lemma keeps_deleted_refl: "keeps_deleted s s"
  by (simp add: keeps_deleted_def)

lemma keeps_deleted_trans: "keeps_deleted s s' \<Longrightarrow> keeps_deleted s' s'' \<Longrightarrow> keeps_deleted s s''"
  by (fastforce simp: keeps_deleted_def)

lemma keeps_deleted_append: "keeps_deleted s (s @ [u])"
  by (simp add: keeps_deleted_def nth_append)

lemma keeps_deleted_replace:
  assumes only: "filter (\<lambda>u. ID u = ID unit) s = [unit]"
    and same: "ID unit' = ID unit"
    and del: "DeletedAt unit \<noteq> None \<longrightarrow> DeletedAt unit' \<noteq> None"
  shows "keeps_deleted s (map (\<lambda>v. if ID v = ID unit' then unit' else v) s)"
proof -
  have "v = unit" if "v \<in> set s" "ID v = ID unit" for v
  proof -
    from that have "v \<in> set (filter (\<lambda>u. ID u = ID unit) s)" by simp
    with only show ?thesis by simp
  qed
  then have at: "s ! i = unit" if "i < length s" "ID (s ! i) = ID unit" for i
    using that by simp
  show ?thesis
    unfolding keeps_deleted_def
  proof (intro conjI allI impI)
    fix i
    assume i: "i < length (s::Unit list)"
    show "ID (map (\<lambda>v. if ID v = ID unit' then unit' else v) s ! i) = ID (s ! i)"
      using i by simp
    assume d: "DeletedAt (s ! i) \<noteq> None"
    show "DeletedAt (map (\<lambda>v. if ID v = ID unit' then unit' else v) s ! i) \<noteq> None"
    proof (cases "ID (s ! i) = ID unit")
      case True
      with at [OF i] d del have "DeletedAt unit' \<noteq> None" by simp
      with True i same show ?thesis by simp
    next
      case False
      with i same d show ?thesis by simp
    qed
  qed simp
qed

lemma mem_fetch_single:
  assumes "repo_GetByIDs mem_Repository [unit_id] s = (Inr [unit], st)"
  shows "st = s" and "filter (\<lambda>u. ID u = ID unit) s = [unit]"
proof -
  from assms have st: "st = s" and f: "filter (\<lambda>u. ID u = unit_id) s = [unit]"
    by (auto simp: mem_GetByIDs)
  from f have "unit \<in> set (filter (\<lambda>u. ID u = unit_id) s)" by simp
  then have "ID unit = unit_id" by simp
  with f show "filter (\<lambda>u. ID u = ID unit) s = [unit]" by simp
  show "st = s" by (rule st)
qed

lemma perform_Update_keeps:
  "keeps_deleted (store w) (store (snd (UseCase_Update validate mem_Repository now unit_id userID name w)))"
proof (cases "length (filter (\<lambda>u. ID u \<in> set [unit_id]) (store w)) = 1")
  case False
  then show ?thesis
    using UseCase_Update_count [of mem_Repository unit_id w _ "store w"]
    by (simp add: mem_GetByIDs after_call_fields keeps_deleted_refl)
next
  case True
  then obtain unit where u: "filter (\<lambda>u. ID u \<in> set [unit_id]) (store w) = [unit]"
    by (auto simp: length_Suc_conv)
  then have f: "repo_GetByIDs mem_Repository [unit_id] (store w) = (Inr [unit], store w)"
    by (simp add: mem_GetByIDs)
  note only = mem_fetch_single(2) [OF f]
  have "keeps_deleted (store w)
          (map (\<lambda>v. if ID v = ID (touched now name unit) then touched now name unit else v) (store w))"
    by (rule keeps_deleted_replace [OF only]) (simp_all add: touched_fields)
  then show ?thesis
    by (simp add: UseCase_Update_fetched [OF f] mem_Update after_call_fields keeps_deleted_refl
        split: option.splits)
qed

lemma perform_Delete_keeps:
  "keeps_deleted (store w) (store (snd (UseCase_Delete mem_Repository now unit_id w)))"
proof (cases "length (filter (\<lambda>u. ID u \<in> set [unit_id]) (store w)) = 1")
  case False
  then show ?thesis
    using UseCase_Delete_count [of mem_Repository unit_id w _ "store w"]
    by (simp add: mem_GetByIDs after_call_fields keeps_deleted_refl)
next
  case True
  then obtain unit where u: "filter (\<lambda>u. ID u \<in> set [unit_id]) (store w) = [unit]"
    by (auto simp: length_Suc_conv)
  then have f: "repo_GetByIDs mem_Repository [unit_id] (store w) = (Inr [unit], store w)"
    by (simp add: mem_GetByIDs)
  note only = mem_fetch_single(2) [OF f]
  have "keeps_deleted (store w)
          (map (\<lambda>v. if ID v = ID (deleted now unit) then deleted now unit else v) (store w))"
    by (rule keeps_deleted_replace [OF only]) (simp_all add: deleted_fields)
  then show ?thesis
    by (simp add: UseCase_Delete_fetched [OF f] mem_Update after_call_fields)
qed

lemma perform_keeps: "keeps_deleted (store w) (store (perform validate w op))"
proof (cases op)
  case (Op_GetByIDs ids)
  then show ?thesis
    by (simp add: UseCase_GetByIDs_def issue_def mem_GetByIDs after_call_fields keeps_deleted_refl)
next
  case (Op_GetAll userID substring)
  then show ?thesis
    by (simp add: UseCase_GetAll_def issue_def mem_Repository_def after_call_fields keeps_deleted_refl)
next
  case (Op_Create newid now userID name)
  then show ?thesis
    by (simp add: UseCase_Create_eq mem_Create after_call_fields keeps_deleted_refl
        keeps_deleted_append split: option.splits)
next
  case (Op_Update now unit_id userID name)
  then show ?thesis by (simp add: perform_Update_keeps)
next
  case (Op_Delete now unit_id)
  then show ?thesis by (simp add: perform_Delete_keeps)
qed

lemma foldl_perform_keeps:
  "keeps_deleted (store w) (store (foldl (perform validate) w ops))"
proof (induction ops arbitrary: w)
  case Nil
  show ?case by (simp add: keeps_deleted_refl)
next
  case (Cons op ops)
  have "keeps_deleted (store w) (store (perform validate w op))"
    by (rule perform_keeps)
  moreover have "keeps_deleted (store (perform validate w op))
      (store (foldl (perform validate) (perform validate w op) ops))"
    by (rule Cons.IH)
  ultimately show ?case
    by (simp add: keeps_deleted_trans)
qed

lemma deleted_forever_in_memory:
  assumes "i < length (store w)" and "DeletedAt (store w ! i) \<noteq> None"
  shows "i < length (store (foldl (perform validate) w ops)) \<and>
         ID (store (foldl (perform validate) w ops) ! i) = ID (store w ! i) \<and>
         DeletedAt (store (foldl (perform validate) w ops) ! i) \<noteq> None"
  using foldl_perform_keeps [of w validate ops] assms
  by (simp add: keeps_deleted_def)

end
